theory Spec2Isabelle
  imports Complex_Main "HOL-Library.Multiset"
begin

section \<open>Data model\<close>

text \<open>
  The lane-graph queries of \<^verbatim>\<open>src/lyftl5/custom_map_api.py\<close> (class
  \<^verbatim>\<open>CustomMapAPI\<close>). Coordinates are finite NumPy floats in the source:
  a coordinate is modelled by the real number it denotes, and the arithmetic on coordinates
  is float64 arithmetic. Lane identifiers are the strings produced by
  \<^verbatim>\<open>id_as_str\<close>; an unset protobuf identifier is the empty string.
\<close>

type_synonym point = "real \<times> real"

text \<open>A bounding box is \<^verbatim>\<open>[[x_min, y_min], [x_max, y_max]]\<close>.\<close>

type_synonym bounds = "point \<times> point"

datatype error = KeyError | IndexError | ValueError | AssertionError

datatype InterpolationMethod = INTER_METER | INTER_ENSURE_LEN

section \<open>Float64 arithmetic\<close>

text \<open>
  The distances and the progress values of the source are NumPy \<^verbatim>\<open>float64\<close> values. A
  finite value is modelled by the real number it denotes (the two zeros are one value:
  they compare equal, and nothing below depends on the sign of a zero); the result of an
  operation can also be an infinity or NaN. Every operation returns the exact result
  rounded to the nearest \<^verbatim>\<open>float64\<close> value, a tie going to the value with the even
  significand, and an infinity when the rounded value passes the largest finite one
  (IEEE 754 binary64 in its default rounding mode).
\<close>

datatype float64 = Finite real | PosInf | NegInf | NaN

text \<open>The binary exponent of a positive real: \<open>2\<^sup>e \<le> x < 2\<^sup>e\<^sup>+\<^sup>1\<close>.\<close>

definition ilog2 :: "real \<Rightarrow> int" where
  "ilog2 x = \<lfloor>log 2 x\<rfloor>"

definition round_half_even :: "real \<Rightarrow> int" where
  "round_half_even y =
     (let f = \<lfloor>y\<rfloor>; r = y - of_int f
      in if r < 1 / 2 then f else if 1 / 2 < r then f + 1 else if even f then f else f + 1)"

text \<open>
  Rounding a real to \<^verbatim>\<open>float64\<close>. In the binade of exponent \<open>e\<close> the values are
  \<open>2\<^sup>e\<^sup>-\<^sup>5\<^sup>2\<close> apart; below \<open>2\<^sup>-\<^sup>1\<^sup>0\<^sup>2\<^sup>2\<close> they stay \<open>2\<^sup>-\<^sup>1\<^sup>0\<^sup>7\<^sup>4\<close>
  apart; a rounded value of \<open>2\<^sup>1\<^sup>0\<^sup>2\<^sup>4\<close> or more overflows.
\<close>

definition f64_round :: "real \<Rightarrow> float64" where
  "f64_round x =
     (if x = 0 then Finite 0
      else
        let e = max (ilog2 \<bar>x\<bar>) (- 1022);
            ulp = 2 powi (e - 52);
            y = of_int (round_half_even (x / ulp)) * ulp
        in if 2 powi 1024 \<le> \<bar>y\<bar> then (if 0 < x then PosInf else NegInf) else Finite y)"

fun f64_neg :: "float64 \<Rightarrow> float64" where
  "f64_neg (Finite a) = Finite (- a)"
| "f64_neg PosInf = NegInf"
| "f64_neg NegInf = PosInf"
| "f64_neg NaN = NaN"

fun f64_add :: "float64 \<Rightarrow> float64 \<Rightarrow> float64" where
  "f64_add NaN b = NaN"
| "f64_add a NaN = NaN"
| "f64_add (Finite a) (Finite b) = f64_round (a + b)"
| "f64_add PosInf NegInf = NaN"
| "f64_add NegInf PosInf = NaN"
| "f64_add PosInf b = PosInf"
| "f64_add a PosInf = PosInf"
| "f64_add NegInf b = NegInf"
| "f64_add a NegInf = NegInf"

definition f64_sub :: "float64 \<Rightarrow> float64 \<Rightarrow> float64" where
  "f64_sub a b = f64_add a (f64_neg b)"

fun f64_mul :: "float64 \<Rightarrow> float64 \<Rightarrow> float64" where
  "f64_mul NaN b = NaN"
| "f64_mul a NaN = NaN"
| "f64_mul (Finite a) (Finite b) = f64_round (a * b)"
| "f64_mul (Finite a) PosInf = (if a = 0 then NaN else if 0 < a then PosInf else NegInf)"
| "f64_mul (Finite a) NegInf = (if a = 0 then NaN else if 0 < a then NegInf else PosInf)"
| "f64_mul PosInf (Finite b) = (if b = 0 then NaN else if 0 < b then PosInf else NegInf)"
| "f64_mul NegInf (Finite b) = (if b = 0 then NaN else if 0 < b then NegInf else PosInf)"
| "f64_mul PosInf PosInf = PosInf"
| "f64_mul PosInf NegInf = NegInf"
| "f64_mul NegInf PosInf = NegInf"
| "f64_mul NegInf NegInf = PosInf"


text \<open>
  Division is used by \<^verbatim>\<open>np.linspace\<close> only, with a divisor of at least 1; a division by
  zero is given the sign of the dividend.
\<close>

fun f64_div :: "float64 \<Rightarrow> float64 \<Rightarrow> float64" where
  "f64_div NaN b = NaN"
| "f64_div a NaN = NaN"
| "f64_div (Finite a) (Finite b) =
     (if b = 0 then (if a = 0 then NaN else if 0 < a then PosInf else NegInf)
      else f64_round (a / b))"
| "f64_div (Finite a) b = Finite 0"
| "f64_div a (Finite b) = (if (a = PosInf) = (0 \<le> b) then PosInf else NegInf)"
| "f64_div a b = NaN"

fun f64_sqrt :: "float64 \<Rightarrow> float64" where
  "f64_sqrt (Finite a) = (if a < 0 then NaN else f64_round (sqrt a))"
| "f64_sqrt PosInf = PosInf"
| "f64_sqrt NegInf = NaN"
| "f64_sqrt NaN = NaN"

text \<open>
  The order in which NumPy sorts \<^verbatim>\<open>float64\<close> values: the negative infinity, the finite
  values by their size, the positive infinity, and NaN last.
\<close>

fun f64_rank :: "float64 \<Rightarrow> nat" where
  "f64_rank NegInf = 0"
| "f64_rank (Finite a) = 1"
| "f64_rank PosInf = 2"
| "f64_rank NaN = 3"

fun f64_value :: "float64 \<Rightarrow> real" where
  "f64_value (Finite a) = a"
| "f64_value b = 0"

instantiation float64 :: linorder
begin

definition less_eq_float64 :: "float64 \<Rightarrow> float64 \<Rightarrow> bool" where
  "less_eq_float64 a b \<longleftrightarrow>
     f64_rank a < f64_rank b \<or> (f64_rank a = f64_rank b \<and> f64_value a \<le> f64_value b)"

definition less_float64 :: "float64 \<Rightarrow> float64 \<Rightarrow> bool" where
  "less_float64 a b \<longleftrightarrow>
     f64_rank a < f64_rank b \<or> (f64_rank a = f64_rank b \<and> f64_value a < f64_value b)"

instance
proof
  fix x y z :: float64
  show "x < y \<longleftrightarrow> x \<le> y \<and> \<not> y \<le> x"
    by (auto simp: less_eq_float64_def less_float64_def)
  show "x \<le> x" by (simp add: less_eq_float64_def)
  show "x \<le> y \<Longrightarrow> y \<le> z \<Longrightarrow> x \<le> z"
    by (auto simp: less_eq_float64_def)
  show "x \<le> y \<Longrightarrow> y \<le> x \<Longrightarrow> x = y"
    by (cases x; cases y) (auto simp: less_eq_float64_def)
  show "x \<le> y \<or> y \<le> x"
    by (auto simp: less_eq_float64_def)
qed

end

section \<open>Map records\<close>

text \<open>
  The fields of the protobuf \<^verbatim>\<open>Lane\<close> message that the source reads: its adjacency, and
  the two boundary polylines that \<^verbatim>\<open>get_lane_coords\<close> decodes.
\<close>

record Lane =
  lanes_ahead :: "string list"
  adjacent_lane_change_left :: string
  adjacent_lane_change_right :: string
  xyz_left :: "point list"
  xyz_right :: "point list"

text \<open>
  A map element carries its identifier and, when it is a lane, the lane message. Reading
  \<^verbatim>\<open>element.element.lane\<close> of an element that is no lane yields the default message.
\<close>

record MapElement =
  element_id :: string
  element_lane :: "Lane option"

definition default_Lane :: Lane where
  "default_Lane = \<lparr>lanes_ahead = [], adjacent_lane_change_left = [],
     adjacent_lane_change_right = [], xyz_left = [], xyz_right = []\<rparr>"

text \<open>
  The object \<^verbatim>\<open>self\<close>: the element table and its index, the precomputed
  \<^verbatim>\<open>bounds_info["lanes"]\<close> arrays, the two configuration values of
  \<^verbatim>\<open>lane_cfg_params\<close>, and the library services the methods call and whose code
  is not part of the repository: the interpolation of a lane's centerline
  (\<^verbatim>\<open>MapAPI.get_lane_as_interpolation\<close>, of which only the columns
  \<^verbatim>\<open>["xyz_midlane"][:, :2]\<close> are read), the coarse filter \<^verbatim>\<open>indices_in_bounds\<close>
  of l5kit, \<^verbatim>\<open>np.argsort\<close>, and the dot product of two vectors of length 2.
\<close>

record CustomMapAPI =
  elements :: "MapElement list"
  ids_to_el :: "string \<Rightarrow> nat option"
  bounds_info_lanes_ids :: "string list"
  bounds_info_lanes_bounds :: "bounds list"
  max_retrieval_distance_m :: real
  max_points_per_lane :: int
  get_lane_as_interpolation :: "string \<Rightarrow> real \<Rightarrow> InterpolationMethod \<Rightarrow> error + point list"
  indices_in_bounds :: "point \<Rightarrow> bounds list \<Rightarrow> real \<Rightarrow> nat list"
  np_argsort :: "float64 list \<Rightarrow> nat list"
  np_dot :: "float64 \<times> float64 \<Rightarrow> float64 \<times> float64 \<Rightarrow> float64"

section \<open>Element and adjacency lookups\<close>

text \<open>\<^verbatim>\<open>get_element\<close>: both subscripts raise when the key or the index is absent.\<close>

definition get_element :: "CustomMapAPI \<Rightarrow> string \<Rightarrow> error + MapElement" where
  "get_element api elem_id =
     (case ids_to_el api elem_id of
        None \<Rightarrow> Inl KeyError
      | Some element_idx \<Rightarrow>
          if element_idx < length (elements api) then Inr (elements api ! element_idx)
          else Inl IndexError)"

definition is_lane :: "MapElement \<Rightarrow> bool" where
  "is_lane element = (element_lane element \<noteq> None)"

definition lane_of :: "MapElement \<Rightarrow> Lane" where
  "lane_of element = (case element_lane element of None \<Rightarrow> default_Lane | Some lane \<Rightarrow> lane)"

definition get_lane :: "CustomMapAPI \<Rightarrow> string \<Rightarrow> error + Lane" where
  "get_lane api lane_id =
     (case get_element api lane_id of Inl e \<Rightarrow> Inl e | Inr element \<Rightarrow> Inr (lane_of element))"

text \<open>\<^verbatim>\<open>bool(s)\<close> of a string is false exactly for the empty string.\<close>

definition get_ahead_lanes_ids :: "CustomMapAPI \<Rightarrow> string \<Rightarrow> error + string list" where
  "get_ahead_lanes_ids api lane_id =
     (case get_lane api lane_id of
        Inl e \<Rightarrow> Inl e
      | Inr lane \<Rightarrow> Inr (filter (\<lambda>ahead_lane_id. ahead_lane_id \<noteq> []) (lanes_ahead lane)))"

definition get_change_lanes_ids :: "CustomMapAPI \<Rightarrow> string \<Rightarrow> error + string list" where
  "get_change_lanes_ids api lane_id =
     (case get_lane api lane_id of
        Inl e \<Rightarrow> Inl e
      | Inr lane \<Rightarrow>
          Inr ((if adjacent_lane_change_left lane \<noteq> [] then [adjacent_lane_change_left lane]
                else [])
             @ (if adjacent_lane_change_right lane \<noteq> [] then [adjacent_lane_change_right lane]
                else [])))"

definition get_connected_lanes_ids :: "CustomMapAPI \<Rightarrow> string \<Rightarrow> error + string list" where
  "get_connected_lanes_ids api lane_id =
     (case get_ahead_lanes_ids api lane_id of
        Inl e \<Rightarrow> Inl e
      | Inr ahead_lanes_ids \<Rightarrow>
          (case get_change_lanes_ids api lane_id of
             Inl e \<Rightarrow> Inl e
           | Inr change_lanes_ids \<Rightarrow> Inr (ahead_lanes_ids @ change_lanes_ids)))"

section \<open>Bounding boxes and containment\<close>

text \<open>
  \<^verbatim>\<open>get_lane_coords\<close> is inherited from l5kit's \<^verbatim>\<open>MapAPI\<close>: it fetches the element by
  its identifier through the same index as \<^verbatim>\<open>get_element\<close> (so an identifier absent
  from the table raises \<^verbatim>\<open>KeyError\<close>, which is also what the specification says of a
  lookup with an absent identifier), asserts that the element is a lane, and decodes the
  two boundaries of its lane message.
\<close>

definition get_lane_coords :: "CustomMapAPI \<Rightarrow> string \<Rightarrow> error + point list \<times> point list" where
  "get_lane_coords api lane_id =
     (case get_element api lane_id of
        Inl e \<Rightarrow> Inl e
      | Inr element \<Rightarrow>
          if \<not> is_lane element then Inl AssertionError
          else Inr (xyz_left (lane_of element), xyz_right (lane_of element)))"

text \<open>\<^verbatim>\<open>np.min\<close> and \<^verbatim>\<open>np.max\<close> of an empty array raise \<^verbatim>\<open>ValueError\<close>.\<close>

definition get_lane_bounds :: "CustomMapAPI \<Rightarrow> string \<Rightarrow> error + bounds" where
  "get_lane_bounds api lane_id =
     (case get_lane_coords api lane_id of
        Inl e \<Rightarrow> Inl e
      | Inr (left, right) \<Rightarrow>
          if left = [] \<or> right = [] then Inl ValueError
          else
            let x_min = min (Min (set (map fst left))) (Min (set (map fst right)));
                y_min = min (Min (set (map snd left))) (Min (set (map snd right)));
                x_max = max (Max (set (map fst left))) (Max (set (map fst right)));
                y_max = max (Max (set (map snd left))) (Max (set (map snd right)))
            in Inr ((x_min, y_min), (x_max, y_max)))"

definition in_bounds :: "point \<Rightarrow> bounds \<Rightarrow> bool" where
  "in_bounds position bnds =
     (let x = fst position;
          y = snd position;
          x_min = fst (fst bnds);
          y_min = snd (fst bnds);
          x_max = fst (snd bnds);
          y_max = snd (snd bnds);
          x_in = (x > x_min \<and> x < x_max);
          y_in = (y > y_min \<and> y < y_max)
      in x_in \<and> y_in)"

text \<open>
  The loop of \<^verbatim>\<open>get_lanes_ids_at\<close> over \<^verbatim>\<open>self.elements\<close>: elements that are no lanes
  are skipped, a failing bounds lookup aborts the loop, and the identifiers of the lanes
  whose box contains the position are collected in element order.
\<close>

fun lanes_ids_at_loop :: "CustomMapAPI \<Rightarrow> point \<Rightarrow> MapElement list \<Rightarrow> error + string list" where
  "lanes_ids_at_loop api position [] = Inr []"
| "lanes_ids_at_loop api position (element # rest) =
     (if \<not> is_lane element then lanes_ids_at_loop api position rest
      else
        case get_lane_bounds api (element_id element) of
          Inl e \<Rightarrow> Inl e
        | Inr lane_bounds \<Rightarrow>
            (case lanes_ids_at_loop api position rest of
               Inl e \<Rightarrow> Inl e
             | Inr lanes_ids \<Rightarrow>
                 Inr (if in_bounds position lane_bounds then element_id element # lanes_ids
                      else lanes_ids)))"

definition get_lanes_ids_at :: "CustomMapAPI \<Rightarrow> point \<Rightarrow> error + string list" where
  "get_lanes_ids_at api position = lanes_ids_at_loop api position (elements api)"

section \<open>Python containers\<close>

text \<open>
  Subscripting a sequence with a Python integer: a negative index counts from the end,
  and an index outside the sequence raises \<^verbatim>\<open>IndexError\<close>.
\<close>

definition py_index :: "'a list \<Rightarrow> int \<Rightarrow> error + 'a" where
  "py_index xs i =
     (if 0 \<le> i \<and> i < int (length xs) then Inr (xs ! nat i)
      else if i < 0 \<and> - i \<le> int (length xs) then Inr (xs ! nat (int (length xs) + i))
      else Inl IndexError)"

text \<open>
  A Python \<^verbatim>\<open>dict\<close> iterates in insertion order, and the order in which
  \<^verbatim>\<open>unvisited_lanes_ids\<close> is iterated decides the order of the visits, so a dictionary is
  an association list: assigning to a present key keeps its place, assigning to a new key
  appends it, and \<^verbatim>\<open>del\<close> removes the entry.
\<close>

type_synonym ('k, 'v) dict = "('k \<times> 'v) list"

primrec dict_set :: "'k \<Rightarrow> 'v \<Rightarrow> ('k, 'v) dict \<Rightarrow> ('k, 'v) dict" where
  "dict_set k v [] = [(k, v)]"
| "dict_set k v (entry # d) =
     (if fst entry = k then (k, v) # d else entry # dict_set k v d)"

definition dict_del :: "'k \<Rightarrow> ('k, 'v) dict \<Rightarrow> ('k, 'v) dict" where
  "dict_del k d = filter (\<lambda>entry. fst entry \<noteq> k) d"

definition dict_keys :: "('k, 'v) dict \<Rightarrow> 'k list" where
  "dict_keys d = map fst d"

definition dict_get :: "('k, 'v) dict \<Rightarrow> 'k \<Rightarrow> 'v option" where
  "dict_get d k = map_of d k"

definition dict_mem :: "'k \<Rightarrow> ('k, 'v) dict \<Rightarrow> bool" where
  "dict_mem k d = (dict_get d k \<noteq> None)"

section \<open>Nearest lanes\<close>

text \<open>
  \<^verbatim>\<open>midpoints - position\<close>: the difference of two points, each coordinate rounded.
  The coordinates that come in are finite.
\<close>

definition point_diff :: "point \<Rightarrow> point \<Rightarrow> float64 \<times> float64" where
  "point_diff a b =
     (f64_sub (Finite (fst a)) (Finite (fst b)), f64_sub (Finite (snd a)) (Finite (snd b)))"

text \<open>
  \<^verbatim>\<open>np.linalg.norm(x, axis=-1)\<close> computes \<^verbatim>\<open>sqrt(add.reduce(x * x, axis=-1))\<close>: for
  each row the two products, their sum and the root are computed one after the other,
  each rounded.
\<close>

definition np_linalg_norm :: "float64 \<times> float64 \<Rightarrow> float64" where
  "np_linalg_norm v = f64_sqrt (f64_add (f64_mul (fst v) (fst v)) (f64_mul (snd v) (snd v)))"

text \<open>
  \<^verbatim>\<open>np.linalg.norm(x)\<close> of a single vector computes \<^verbatim>\<open>sqrt(x.dot(x))\<close>. The dot
  product is carried out by the BLAS library the NumPy build is linked with, which may
  fuse the multiplication and the addition into one rounding, so its last bit is not
  fixed by NumPy: it is the parameter \<open>np_dot\<close>.
\<close>

definition np_linalg_norm_vector :: "CustomMapAPI \<Rightarrow> float64 \<times> float64 \<Rightarrow> float64" where
  "np_linalg_norm_vector api v = f64_sqrt (np_dot api v v)"

text \<open>
  Indexing an array with an array of indices, \<^verbatim>\<open>xs[idxs]\<close> or \<^verbatim>\<open>np.take(xs, idxs)\<close>:
  an index outside the array raises \<^verbatim>\<open>IndexError\<close>.
\<close>

definition np_take :: "'a list \<Rightarrow> nat list \<Rightarrow> error + 'a list" where
  "np_take xs idxs =
     (if list_all (\<lambda>i. i < length xs) idxs then Inr (map (\<lambda>i. xs ! i) idxs)
      else Inl IndexError)"

text \<open>\<^verbatim>\<open>np.linalg.norm(midpoints - position, axis=-1)\<close>: one distance for each midpoint.\<close>

definition midpoints_distance :: "point \<Rightarrow> point list \<Rightarrow> float64 list" where
  "midpoints_distance position midpoints =
     map (\<lambda>midpoint. np_linalg_norm (point_diff midpoint position)) midpoints"

definition get_closest_lane_midpoints :: "CustomMapAPI \<Rightarrow> point \<Rightarrow> string \<Rightarrow> error + point list" where
  "get_closest_lane_midpoints api position lane_id =
     (case get_lane_as_interpolation api lane_id 1 INTER_METER of
        Inl e \<Rightarrow> Inl e
      | Inr midpoints \<Rightarrow>
          np_take midpoints (np_argsort api (midpoints_distance position midpoints)))"

text \<open>
  The body of the loop of \<^verbatim>\<open>get_closest_lanes_ids\<close> once the lane identifier is known:
  the distance from the position to the first of the sorted midpoints, computed as the
  norm of a single vector. Subscripting an empty array of midpoints raises
  \<^verbatim>\<open>IndexError\<close>.
\<close>

definition closest_midpoint_distance :: "CustomMapAPI \<Rightarrow> point \<Rightarrow> string \<Rightarrow> error + float64" where
  "closest_midpoint_distance api position lane_id =
     (case get_closest_lane_midpoints api position lane_id of
        Inl e \<Rightarrow> Inl e
      | Inr closest_midpoints \<Rightarrow>
          (case py_index closest_midpoints 0 of
             Inl e \<Rightarrow> Inl e
           | Inr closest_midpoint \<Rightarrow>
               Inr (np_linalg_norm_vector api (point_diff closest_midpoint position))))"

fun lanes_distances_loop ::
  "CustomMapAPI \<Rightarrow> point \<Rightarrow> string list \<Rightarrow> nat list \<Rightarrow> error + float64 list" where
  "lanes_distances_loop api position lanes_ids [] = Inr []"
| "lanes_distances_loop api position lanes_ids (lane_idx # rest) =
     (case py_index lanes_ids (int lane_idx) of
        Inl e \<Rightarrow> Inl e
      | Inr lane_id \<Rightarrow>
          (case closest_midpoint_distance api position lane_id of
             Inl e \<Rightarrow> Inl e
           | Inr closest_midpoint_dist \<Rightarrow>
               (case lanes_distances_loop api position lanes_ids rest of
                  Inl e \<Rightarrow> Inl e
                | Inr lanes_distances \<Rightarrow> Inr (closest_midpoint_dist # lanes_distances))))"

text \<open>The coarse candidates: the indices that \<^verbatim>\<open>indices_in_bounds\<close> returns.\<close>

definition coarse_lanes_indices :: "CustomMapAPI \<Rightarrow> point \<Rightarrow> nat list" where
  "coarse_lanes_indices api position =
     indices_in_bounds api position (bounds_info_lanes_bounds api) (max_retrieval_distance_m api)"

text \<open>
  \<^verbatim>\<open>get_closest_lanes_ids\<close>: the inner \<open>None\<close> is Python's \<^verbatim>\<open>None\<close>, returned when
  there is no coarse candidate.
\<close>

definition get_closest_lanes_ids :: "CustomMapAPI \<Rightarrow> point \<Rightarrow> error + string list option" where
  "get_closest_lanes_ids api position =
     (let lanes_ids = bounds_info_lanes_ids api;
          lanes_indices = coarse_lanes_indices api position
      in if length lanes_indices = 0 then Inr None
         else
           (case lanes_distances_loop api position lanes_ids lanes_indices of
              Inl e \<Rightarrow> Inl e
            | Inr lanes_distances \<Rightarrow>
                (case np_take lanes_indices (np_argsort api lanes_distances) of
                   Inl e \<Rightarrow> Inl e
                 | Inr sorted_indices \<Rightarrow>
                     (case np_take lanes_ids sorted_indices of
                        Inl e \<Rightarrow> Inl e
                      | Inr closest_lanes_ids \<Rightarrow> Inr (Some closest_lanes_ids)))))"

section \<open>Progress along a lane\<close>

text \<open>
  \<^verbatim>\<open>np.linspace(0, 1, num)\<close>: no value when \<open>num\<close> is 0 and the single value 0 when it
  is 1. Otherwise NumPy computes \<^verbatim>\<open>step = 1.0 / (num - 1)\<close> and the values
  \<^verbatim>\<open>arange(0, num) * step\<close>, each index and \<open>num - 1\<close> converted to \<^verbatim>\<open>float64\<close>, and
  then sets the last value to 1. (The branch NumPy takes when the step rounds to zero
  cannot be reached with a finite divisor.)
\<close>

definition np_linspace_0_1 :: "nat \<Rightarrow> float64 list" where
  "np_linspace_0_1 num =
     (if num = 0 then []
      else if num = 1 then [Finite 0]
      else
        let step = f64_div (Finite 1) (f64_round (real (num - 1)))
        in map (\<lambda>i. f64_mul (f64_round (real i)) step) [0..<num - 1] @ [Finite 1])"

definition get_lane_progress :: "CustomMapAPI \<Rightarrow> point \<Rightarrow> string \<Rightarrow> error + float64" where
  "get_lane_progress api position lane_id =
     (let max_lane_points = max_points_per_lane api
      in case get_lane_as_interpolation api lane_id (real_of_int max_lane_points) INTER_ENSURE_LEN of
           Inl e \<Rightarrow> Inl e
         | Inr midpoints \<Rightarrow>
             let progress = np_linspace_0_1 (length midpoints)
             in (case np_take progress (np_argsort api (midpoints_distance position midpoints)) of
                   Inl e \<Rightarrow> Inl e
                 | Inr sorted_progress \<Rightarrow> py_index sorted_progress 0))"

section \<open>Route reconstruction\<close>

text \<open>
  The two dictionaries of \<^verbatim>\<open>get_route\<close>. A value is the parent lane, or Python's
  \<^verbatim>\<open>None\<close> for a lane seeded from the initial position.
\<close>

record frontier =
  visited_lanes_ids :: "(string, string option) dict"
  unvisited_lanes_ids :: "(string, string option) dict"

definition initial_position :: "point list \<Rightarrow> error + point" where
  "initial_position trajectory = py_index trajectory 0"

definition final_position :: "point list \<Rightarrow> error + point" where
  "final_position trajectory = py_index trajectory (- 2)"

text \<open>
  The first lines of \<^verbatim>\<open>get_route\<close>: the two positions are read, then the lanes at
  each of them; the first failure is the one raised.
\<close>

definition route_endpoints :: "CustomMapAPI \<Rightarrow> point list \<Rightarrow> error + string list \<times> string list" where
  "route_endpoints api trajectory =
     (case initial_position trajectory of
        Inl e \<Rightarrow> Inl e
      | Inr initial_pos \<Rightarrow>
          (case final_position trajectory of
             Inl e \<Rightarrow> Inl e
           | Inr final_pos \<Rightarrow>
               (case get_lanes_ids_at api initial_pos of
                  Inl e \<Rightarrow> Inl e
                | Inr initial_lanes_ids \<Rightarrow>
                    (case get_lanes_ids_at api final_pos of
                       Inl e \<Rightarrow> Inl e
                     | Inr final_lanes_ids \<Rightarrow> Inr (initial_lanes_ids, final_lanes_ids)))))"

text \<open>The seeding loop: every initial lane enters \<^verbatim>\<open>unvisited_lanes_ids\<close> with no parent.\<close>

definition seed_frontier :: "string list \<Rightarrow> frontier" where
  "seed_frontier initial_ids =
     \<lparr>visited_lanes_ids = [],
      unvisited_lanes_ids = fold (\<lambda>initial_lane_id d. dict_set initial_lane_id None d) initial_ids []\<rparr>"

text \<open>
  The first inner loop of a frame: the unvisited lanes, in dictionary order, whose box
  contains the position. A failing bounds lookup raises out of the loop.
\<close>

fun current_lanes_loop :: "CustomMapAPI \<Rightarrow> point \<Rightarrow> string list \<Rightarrow> error + string list" where
  "current_lanes_loop api position [] = Inr []"
| "current_lanes_loop api position (lane_id # rest) =
     (case get_lane_bounds api lane_id of
        Inl e \<Rightarrow> Inl e
      | Inr lane_bounds \<Rightarrow>
          (case current_lanes_loop api position rest of
             Inl e \<Rightarrow> Inl e
           | Inr current \<Rightarrow>
               Inr (if in_bounds position lane_bounds then lane_id # current else current)))"

text \<open>The body of the loop over the connected lanes of a visited lane.\<close>

definition connect_lane :: "string \<Rightarrow> string \<Rightarrow> frontier \<Rightarrow> frontier" where
  "connect_lane lane_id connected_lane_id st =
     (if \<not> dict_mem connected_lane_id (visited_lanes_ids st)
      then st\<lparr>unvisited_lanes_ids :=
                dict_set connected_lane_id (Some lane_id) (unvisited_lanes_ids st)\<rparr>
      else st)"

text \<open>
  The body of the loop over \<^verbatim>\<open>current_lanes_ids\<close>: the lane moves from unvisited to
  visited with the parent it has, then its connected lanes are entered.
\<close>

definition visit_lane :: "CustomMapAPI \<Rightarrow> string \<Rightarrow> frontier \<Rightarrow> error + frontier" where
  "visit_lane api lane_id st =
     (case dict_get (unvisited_lanes_ids st) lane_id of
        None \<Rightarrow> Inl KeyError
      | Some parent \<Rightarrow>
          let st1 = st\<lparr>visited_lanes_ids := dict_set lane_id parent (visited_lanes_ids st)\<rparr>;
              st2 = st1\<lparr>unvisited_lanes_ids := dict_del lane_id (unvisited_lanes_ids st1)\<rparr>
          in (case get_connected_lanes_ids api lane_id of
                Inl e \<Rightarrow> Inl e
              | Inr connected_lanes_ids \<Rightarrow>
                  Inr (fold (connect_lane lane_id) connected_lanes_ids st2)))"

fun visit_lanes_loop :: "CustomMapAPI \<Rightarrow> string list \<Rightarrow> frontier \<Rightarrow> error + frontier" where
  "visit_lanes_loop api [] st = Inr st"
| "visit_lanes_loop api (lane_id # rest) st =
     (case visit_lane api lane_id st of
        Inl e \<Rightarrow> Inl e
      | Inr st' \<Rightarrow> visit_lanes_loop api rest st')"

text \<open>One trajectory sample: the lanes to visit are collected first, then visited.\<close>

definition route_frame :: "CustomMapAPI \<Rightarrow> point \<Rightarrow> frontier \<Rightarrow> error + frontier" where
  "route_frame api position st =
     (case current_lanes_loop api position (dict_keys (unvisited_lanes_ids st)) of
        Inl e \<Rightarrow> Inl e
      | Inr current_lanes_ids \<Rightarrow> visit_lanes_loop api current_lanes_ids st)"

text \<open>The loop over \<^verbatim>\<open>enumerate(trajectory)\<close>; frame 0 is skipped.\<close>

fun frames_loop :: "CustomMapAPI \<Rightarrow> (nat \<times> point) list \<Rightarrow> frontier \<Rightarrow> error + frontier" where
  "frames_loop api [] st = Inr st"
| "frames_loop api ((frame_idx, position) # rest) st =
     (if frame_idx = 0 then frames_loop api rest st
      else
        case route_frame api position st of
          Inl e \<Rightarrow> Inl e
        | Inr st' \<Rightarrow> frames_loop api rest st')"

text \<open>
  The \<^verbatim>\<open>while\<close> loop that walks the parents back. The source puts no bound on it, so
  the model is a partial function: \<open>None\<close> stands for a loop that never ends. The variable
  \<^verbatim>\<open>lane_id\<close> can hold \<^verbatim>\<open>None\<close>, the parent of a seeded lane; subscripting
  \<^verbatim>\<open>visited_lanes_ids\<close> with it, or with any absent key, raises \<^verbatim>\<open>KeyError\<close>.
\<close>

partial_function (option) backtrack ::
  "string list \<Rightarrow> (string, string option) dict \<Rightarrow> string list \<Rightarrow> string option
     \<Rightarrow> (error + string list) option" where
  "backtrack initial_ids visited route lane_id =
     (if list_ex (\<lambda>x. x \<in> set initial_ids) route then Some (Inr route)
      else
        case lane_id of
          None \<Rightarrow> Some (Inl KeyError)
        | Some l \<Rightarrow>
            (case dict_get visited l of
               None \<Rightarrow> Some (Inl KeyError)
             | Some parent \<Rightarrow> backtrack initial_ids visited (l # route) parent))"

text \<open>
  The loop over \<^verbatim>\<open>final_lanes_ids\<close>: the first final lane that was visited is walked
  back, and the loop is left; with no such lane the route stays \<^verbatim>\<open>None\<close>.
\<close>

fun final_lanes_loop ::
  "string list \<Rightarrow> (string, string option) dict \<Rightarrow> string list
     \<Rightarrow> (error + string list option) option" where
  "final_lanes_loop initial_ids visited [] = Some (Inr None)"
| "final_lanes_loop initial_ids visited (final_lane_id # rest) =
     (if \<not> dict_mem final_lane_id visited then final_lanes_loop initial_ids visited rest
      else
        case backtrack initial_ids visited [] (Some final_lane_id) of
          None \<Rightarrow> None
        | Some (Inl e) \<Rightarrow> Some (Inl e)
        | Some (Inr route) \<Rightarrow> Some (Inr (Some route)))"

text \<open>
  \<^verbatim>\<open>get_route\<close>. The outer \<open>option\<close> is \<open>None\<close> when the call does not return; the
  sum is the raised error or the returned value, itself \<open>None\<close> for Python's
  \<^verbatim>\<open>None\<close>.
\<close>

definition get_route :: "CustomMapAPI \<Rightarrow> point list \<Rightarrow> (error + string list option) option" where
  "get_route api trajectory =
     (case route_endpoints api trajectory of
        Inl e \<Rightarrow> Some (Inl e)
      | Inr (initial_lanes_ids, final_lanes_ids) \<Rightarrow>
          (case frames_loop api (enumerate 0 trajectory) (seed_frontier initial_lanes_ids) of
             Inl e \<Rightarrow> Some (Inl e)
           | Inr st \<Rightarrow>
               final_lanes_loop initial_lanes_ids (visited_lanes_ids st) final_lanes_ids))"

section \<open>Properties of the frontier and of the sort\<close>

abbreviation visited_keys :: "frontier \<Rightarrow> string set" where
  "visited_keys st \<equiv> set (dict_keys (visited_lanes_ids st))"

abbreviation unvisited_keys :: "frontier \<Rightarrow> string set" where
  "unvisited_keys st \<equiv> set (dict_keys (unvisited_lanes_ids st))"

definition frontier_disjoint :: "frontier \<Rightarrow> bool" where
  "frontier_disjoint st = (visited_keys st \<inter> unvisited_keys st = {})"



text \<open>
  What NumPy promises of \<^verbatim>\<open>np.argsort\<close>: the result is a permutation of the indices of
  its argument, and reading the argument through it gives a nondecreasing sequence. The
  source calls it with the default \<^verbatim>\<open>kind\<close> (quicksort), for which NumPy does not
  promise the order of equal elements, so the contract says nothing about ties.
\<close>

definition argsort_ok :: "(float64 list \<Rightarrow> nat list) \<Rightarrow> bool" where
  "argsort_ok argsort =
     (\<forall>xs. mset (argsort xs) = mset [0..<length xs] \<and> sorted (map (\<lambda>i. xs ! i) (argsort xs)))"

text \<open>
  The indices in the order of a stable sort: equal elements keep their order. This is
  what \<^verbatim>\<open>np.argsort\<close> returns on the inputs where its default kind sorts by insertion.
\<close>

definition argsort_stable :: "float64 list \<Rightarrow> nat list" where
  "argsort_stable xs = sort_key (\<lambda>i. xs ! i) [0..<length xs]"

text \<open>
  The distance the specification speaks of: the exact Euclidean distance of two points,
  as opposed to the value that \<^verbatim>\<open>np.linalg.norm\<close> computes for it.
\<close>

definition euclidean_distance :: "point \<Rightarrow> point \<Rightarrow> real" where
  "euclidean_distance a b = sqrt ((fst a - fst b)\<^sup>2 + (snd a - snd b)\<^sup>2)"

section \<open>A small map\<close>

text \<open>
  Three straight lanes of width 2 along the x axis: A from 0 to 10, B from 5 to 20 and C
  from 20 to 30, each naming the next as its lane ahead. A and B overlap between 5 and 10.
\<close>

definition straight_lane :: "real \<Rightarrow> real \<Rightarrow> string list \<Rightarrow> Lane" where
  "straight_lane x0 x1 ahead =
     \<lparr>lanes_ahead = ahead, adjacent_lane_change_left = [], adjacent_lane_change_right = [],
      xyz_left = [(x0, 2), (x1, 2)], xyz_right = [(x0, 0), (x1, 0)]\<rparr>"

definition demo_midpoints :: "string \<Rightarrow> real \<Rightarrow> InterpolationMethod \<Rightarrow> error + point list" where
  "demo_midpoints lane_id step method =
     (if lane_id = ''A'' then Inr [(1, 1), (5, 1), (9, 1)]
      else if lane_id = ''B'' then Inr [(7, 1), (12, 1), (19, 1)]
      else if lane_id = ''C'' then Inr [(21, 1), (25, 1), (29, 1)]
      else Inl KeyError)"

text \<open>
  A coarse filter in the manner of l5kit's \<^verbatim>\<open>indices_in_bounds\<close>: the indices of the
  boxes that contain the centre once grown by the half extent on every side.
\<close>

definition box_indices :: "point \<Rightarrow> bounds list \<Rightarrow> real \<Rightarrow> nat list" where
  "box_indices center boxes half_extent =
     filter (\<lambda>i. fst center > fst (fst (boxes ! i)) - half_extent \<and>
                 snd center > snd (fst (boxes ! i)) - half_extent \<and>
                 fst center < fst (snd (boxes ! i)) + half_extent \<and>
                 snd center < snd (snd (boxes ! i)) + half_extent)
       [0..<length boxes]"

text \<open>A dot product that rounds the two products and their sum one after the other.\<close>

definition dot_unfused :: "float64 \<times> float64 \<Rightarrow> float64 \<times> float64 \<Rightarrow> float64" where
  "dot_unfused v w = f64_add (f64_mul (fst v) (fst w)) (f64_mul (snd v) (snd w))"



definition demo_api :: CustomMapAPI where
  "demo_api =
     \<lparr>elements =
        [\<lparr>element_id = ''A'', element_lane = Some (straight_lane 0 10 [''B''])\<rparr>,
         \<lparr>element_id = ''B'', element_lane = Some (straight_lane 5 20 [''C''])\<rparr>,
         \<lparr>element_id = ''C'', element_lane = Some (straight_lane 20 30 [])\<rparr>],
      ids_to_el = map_of [(''A'', 0), (''B'', 1), (''C'', 2)],
      bounds_info_lanes_ids = [''A'', ''B'', ''C''],
      bounds_info_lanes_bounds = [((0, 0), (10, 2)), ((5, 0), (20, 2)), ((20, 0), (30, 2))],
      max_retrieval_distance_m = 1,
      max_points_per_lane = 3,
      get_lane_as_interpolation = demo_midpoints,
      indices_in_bounds = box_indices,
      np_argsort = argsort_stable,
      np_dot = dot_unfused\<rparr>"

text \<open>A map tile that holds lane A only, whose lane ahead, Z, is on a tile that is absent.\<close>

definition gap_api :: CustomMapAPI where
  "gap_api =
     demo_api\<lparr>elements := [\<lparr>element_id = ''A'', element_lane = Some (straight_lane 0 10 [''Z''])\<rparr>],
              ids_to_el := map_of [(''A'', 0)]\<rparr>"

text \<open>The frontier of the small map after lane A, then B, then C was visited.\<close>

definition frontier_A :: frontier where
  "frontier_A = \<lparr>visited_lanes_ids = [(''A'', None)], unvisited_lanes_ids = [(''B'', Some ''A'')]\<rparr>"

definition frontier_AB :: frontier where
  "frontier_AB = \<lparr>visited_lanes_ids = [(''A'', None), (''B'', Some ''A'')],
                  unvisited_lanes_ids = [(''C'', Some ''B'')]\<rparr>"

definition frontier_ABC :: frontier where
  "frontier_ABC = \<lparr>visited_lanes_ids = [(''A'', None), (''B'', Some ''A''), (''C'', Some ''B'')],
                   unvisited_lanes_ids = []\<rparr>"

definition frontier_gap :: frontier where
  "frontier_gap = \<lparr>visited_lanes_ids = [(''A'', None)], unvisited_lanes_ids = [(''Z'', Some ''A'')]\<rparr>"

text \<open>A drive along the three lanes, and a drive that stays in lane A.\<close>

definition demo_trajectory :: "point list" where
  "demo_trajectory = [(2, 1), (2, 1), (15, 1), (25, 1), (25, 1)]"

definition gap_trajectory :: "point list" where
  "gap_trajectory = [(2, 1), (2, 1), (2, 1)]"

section \<open>Midpoints that rounding brings together\<close>

text \<open>
  The \<^verbatim>\<open>float64\<close> values that the decimal literals 0.1, 0.3, 0.4, 3.7, 5.1 and 6.3
  denote (0.5 is a \<^verbatim>\<open>float64\<close> value itself).
\<close>

definition f64_0_1 :: real where
  "f64_0_1 = 3602879701896397 / 2 ^ 55"

definition f64_0_3 :: real where
  "f64_0_3 = 5404319552844595 / 2 ^ 54"

definition f64_0_4 :: real where
  "f64_0_4 = 3602879701896397 / 2 ^ 53"

definition f64_3_7 :: real where
  "f64_3_7 = 4165829655317709 / 2 ^ 50"

definition f64_5_1 :: real where
  "f64_5_1 = 2871044762448691 / 2 ^ 49"

definition f64_6_3 :: real where
  "f64_6_3 = 7093169413108531 / 2 ^ 50"

text \<open>
  Lanes A and B have one midpoint each, (0.3, 0.4) and (0, 0.5); lane R has the two
  midpoints (3.7, 5.1) and (0.1, 6.3). The boxes of A and B both contain the origin.
\<close>

definition rounding_midpoints ::
  "string \<Rightarrow> real \<Rightarrow> InterpolationMethod \<Rightarrow> error + point list" where
  "rounding_midpoints lane_id step method =
     (if lane_id = ''A'' then Inr [(f64_0_3, f64_0_4)]
      else if lane_id = ''B'' then Inr [(0, 1 / 2)]
      else if lane_id = ''R'' then Inr [(f64_3_7, f64_5_1), (f64_0_1, f64_6_3)]
      else Inl KeyError)"

definition rounding_api :: CustomMapAPI where
  "rounding_api =
     demo_api\<lparr>max_points_per_lane := 2,
              bounds_info_lanes_ids := [''A'', ''B''],
              bounds_info_lanes_bounds := [((- 1, - 1), (1, 1)), ((- 1, - 1), (1, 1))],
              get_lane_as_interpolation := rounding_midpoints\<rparr>"

section \<open>Evaluation rules\<close>

lemmas lane_store_eval =
  get_lanes_ids_at_def is_lane_def in_bounds_def get_lane_bounds_def get_lane_coords_def
  get_lane_def get_element_def lane_of_def get_connected_lanes_ids_def get_ahead_lanes_ids_def
  get_change_lanes_ids_def straight_lane_def demo_api_def gap_api_def

lemmas route_eval =
  get_route_def route_endpoints_def initial_position_def final_position_def py_index_def
  seed_frontier_def route_frame_def visit_lane_def connect_lane_def dict_mem_def dict_get_def
  dict_del_def dict_keys_def backtrack.simps enumerate_eq_zip
  frontier_A_def frontier_AB_def frontier_ABC_def frontier_gap_def demo_trajectory_def
  gap_trajectory_def

lemmas nearest_eval =
  get_closest_lanes_ids_def coarse_lanes_indices_def closest_midpoint_distance_def
  get_closest_lane_midpoints_def midpoints_distance_def np_take_def py_index_def
  demo_midpoints_def box_indices_def argsort_stable_def demo_api_def get_lane_progress_def
  upt_rec

section \<open>Dictionaries\<close>



lemma dict_mem_keys: "dict_mem k d \<longleftrightarrow> k \<in> set (dict_keys d)"
  by (simp add: dict_mem_def dict_get_def dict_keys_def map_of_eq_None_iff)

lemma dict_get_keys: "dict_get d k = Some v \<Longrightarrow> k \<in> set (dict_keys d)"
  using dict_mem_keys [of k d] by (simp add: dict_mem_def)

lemma keys_dict_set: "set (dict_keys (dict_set k v d)) = insert k (set (dict_keys d))"
  by (induction d) (auto simp: dict_keys_def)

lemma keys_dict_del: "set (dict_keys (dict_del k d)) = set (dict_keys d) - {k}"
  by (auto simp: dict_keys_def dict_del_def)

section \<open>Key sets along the frontier loop\<close>

lemma connect_lane_visited: "visited_lanes_ids (connect_lane l c st) = visited_lanes_ids st"
  by (simp add: connect_lane_def)

lemma connect_lane_unvisited_keys:
  "unvisited_keys (connect_lane l c st) = unvisited_keys st \<union> ({c} - visited_keys st)"
  by (auto simp: connect_lane_def dict_mem_keys keys_dict_set)

lemma fold_connect_visited:
  "visited_lanes_ids (fold (connect_lane l) cs st) = visited_lanes_ids st"
  by (induction cs arbitrary: st) (simp_all add: connect_lane_visited)

lemma fold_connect_unvisited_keys:
  "unvisited_keys (fold (connect_lane l) cs st) = unvisited_keys st \<union> (set cs - visited_keys st)"
  by (induction cs arbitrary: st)
     (auto simp: connect_lane_unvisited_keys connect_lane_visited)

lemma visit_lane_keys:
  assumes "visit_lane api l st = Inr st'"
  shows "l \<in> unvisited_keys st"
    and "visited_keys st' = insert l (visited_keys st)"
    and "\<exists>cs. get_connected_lanes_ids api l = Inr cs \<and>
           unvisited_keys st' = (unvisited_keys st - {l}) \<union> (set cs - insert l (visited_keys st))"
proof -
  from assms obtain parent cs where
    p: "dict_get (unvisited_lanes_ids st) l = Some parent" and
    cs: "get_connected_lanes_ids api l = Inr cs" and
    st': "st' = fold (connect_lane l) cs
            (st\<lparr>visited_lanes_ids := dict_set l parent (visited_lanes_ids st),
                unvisited_lanes_ids := dict_del l (unvisited_lanes_ids st)\<rparr>)"
    by (auto simp: visit_lane_def Let_def split: option.splits sum.splits)
  from p show "l \<in> unvisited_keys st" by (rule dict_get_keys)
  show "visited_keys st' = insert l (visited_keys st)"
    by (simp add: st' fold_connect_visited keys_dict_set)
  have "unvisited_keys st' = (unvisited_keys st - {l}) \<union> (set cs - insert l (visited_keys st))"
    by (simp add: st' fold_connect_unvisited_keys keys_dict_set keys_dict_del)
  with cs show "\<exists>cs. get_connected_lanes_ids api l = Inr cs \<and>
           unvisited_keys st' = (unvisited_keys st - {l}) \<union> (set cs - insert l (visited_keys st))"
    by blast
qed

lemma visit_lane_disjoint:
  "visit_lane api l st = Inr st' \<Longrightarrow> frontier_disjoint st \<Longrightarrow> frontier_disjoint st'"
  using visit_lane_keys [of api l st st'] by (auto simp: frontier_disjoint_def)


section \<open>Disjoint frontier (C4)\<close>

lemma visit_lane_visited_mono:
  "visit_lane api l st = Inr st' \<Longrightarrow> visited_keys st \<subseteq> visited_keys st'"
  using visit_lane_keys(2) [of api l st st'] by auto

lemma frames_loop_append:
  "frames_loop api (fs @ gs) st =
     (case frames_loop api fs st of Inl e \<Rightarrow> Inl e | Inr s \<Rightarrow> frames_loop api gs s)"
  by (induction api fs st rule: frames_loop.induct) (auto split: sum.splits)

lemma visit_lanes_loop_disjoint:
  "visit_lanes_loop api ls st = Inr st' \<Longrightarrow> frontier_disjoint st \<Longrightarrow>
   frontier_disjoint st' \<and> visited_keys st \<subseteq> visited_keys st'"
proof (induction ls arbitrary: st)
  case Nil
  then show ?case by simp
next
  case (Cons l ls)
  from Cons.prems(1) obtain s where
    s: "visit_lane api l st = Inr s" and rest: "visit_lanes_loop api ls s = Inr st'"
    by (auto split: sum.splits)
  from s Cons.prems(2) have "frontier_disjoint s" by (rule visit_lane_disjoint)
  with Cons.IH rest have "frontier_disjoint st' \<and> visited_keys s \<subseteq> visited_keys st'" by blast
  with visit_lane_visited_mono [OF s] show ?case by blast
qed

lemma route_frame_disjoint:
  "route_frame api position st = Inr st' \<Longrightarrow> frontier_disjoint st \<Longrightarrow>
   frontier_disjoint st' \<and> visited_keys st \<subseteq> visited_keys st'"
  by (auto simp: route_frame_def split: sum.splits dest: visit_lanes_loop_disjoint)

lemma frames_loop_disjoint:
  "frames_loop api fs st = Inr st' \<Longrightarrow> frontier_disjoint st \<Longrightarrow>
   frontier_disjoint st' \<and> visited_keys st \<subseteq> visited_keys st'"
proof (induction api fs st rule: frames_loop.induct)
  case (1 api st)
  then show ?case by simp
next
  case (2 api frame_idx position rest st)
  show ?case
  proof (cases "frame_idx = 0")
    case True
    with 2 show ?thesis by simp
  next
    case False
    with "2.prems"(1) obtain s where
      s: "route_frame api position st = Inr s" and rest: "frames_loop api rest s = Inr st'"
      by (auto split: sum.splits)
    from route_frame_disjoint [OF s "2.prems"(2)]
    have d: "frontier_disjoint s" and m: "visited_keys st \<subseteq> visited_keys s" by auto
    from "2.IH"(2) [OF False s rest d] m show ?thesis by blast
  qed
qed

lemma seed_frontier_disjoint: "frontier_disjoint (seed_frontier initial_ids)"
  by (simp add: frontier_disjoint_def seed_frontier_def dict_keys_def)

text \<open>
  Claim C4. Take any state \<open>st\<close> the frontier loop reaches from the seeded frontier after
  some samples, any state \<open>s1\<close> reached from it by visiting some lanes, any state \<open>s2\<close>
  reached by further visits, and any state \<open>s3\<close> reached after further samples. In each of
  them the visited and the unvisited dictionary share no key; the visited keys only grow;
  and a key that is visited in one of the states is not an unvisited key in that state or
  in any later one, so a visited lane is never entered into unvisited again.
\<close>

theorem frontier_disjoint_throughout:
  assumes frames: "frames_loop api fs (seed_frontier initial_ids) = Inr st"
      and visits1: "visit_lanes_loop api ls1 st = Inr s1"
      and visits2: "visit_lanes_loop api ls2 s1 = Inr s2"
      and later: "frames_loop api fs' s2 = Inr s3"
  shows "frontier_disjoint st \<and> frontier_disjoint s1 \<and> frontier_disjoint s2 \<and>
         frontier_disjoint s3 \<and>
         visited_keys st \<subseteq> visited_keys s1 \<and> visited_keys s1 \<subseteq> visited_keys s2 \<and>
         visited_keys s2 \<subseteq> visited_keys s3 \<and>
         visited_keys st \<inter> (unvisited_keys s1 \<union> unvisited_keys s2 \<union> unvisited_keys s3) = {} \<and>
         visited_keys s1 \<inter> (unvisited_keys s2 \<union> unvisited_keys s3) = {} \<and>
         visited_keys s2 \<inter> unvisited_keys s3 = {}"
proof -
  from frames_loop_disjoint [OF frames seed_frontier_disjoint]
  have d0: "frontier_disjoint st" by simp
  from visit_lanes_loop_disjoint [OF visits1 d0]
  have d1: "frontier_disjoint s1" and m1: "visited_keys st \<subseteq> visited_keys s1" by auto
  from visit_lanes_loop_disjoint [OF visits2 d1]
  have d2: "frontier_disjoint s2" and m2: "visited_keys s1 \<subseteq> visited_keys s2" by auto
  from frames_loop_disjoint [OF later d2]
  have d3: "frontier_disjoint s3" and m3: "visited_keys s2 \<subseteq> visited_keys s3" by auto
  from d1 d2 d3 m1 m2 m3
  have "visited_keys st \<inter> (unvisited_keys s1 \<union> unvisited_keys s2 \<union> unvisited_keys s3) = {}"
    and "visited_keys s1 \<inter> (unvisited_keys s2 \<union> unvisited_keys s3) = {}"
    and "visited_keys s2 \<inter> unvisited_keys s3 = {}"
    unfolding frontier_disjoint_def by blast+
  with d0 d1 d2 d3 m1 m2 m3 show ?thesis by simp
qed

theorem frontier_disjoint_throughout_witness:
  "frames_loop demo_api [(0, (2, 1)), (1, (2, 1))] (seed_frontier [''A'']) = Inr frontier_A \<and>
   visit_lanes_loop demo_api [''B''] frontier_A = Inr frontier_AB \<and>
   visit_lanes_loop demo_api [] frontier_AB = Inr frontier_AB \<and>
   frames_loop demo_api [(3, (25, 1))] frontier_AB = Inr frontier_ABC \<and>
   frontier_disjoint frontier_A \<and> frontier_disjoint frontier_AB \<and>
   frontier_disjoint frontier_ABC \<and>
   visited_keys frontier_A \<subseteq> visited_keys frontier_ABC \<and>
   visited_keys frontier_A \<inter> unvisited_keys frontier_ABC = {}"
proof -
  have h1: "frames_loop demo_api [(0, (2, 1)), (1, (2, 1))] (seed_frontier [''A'']) = Inr frontier_A"
    by (simp add: lane_store_eval route_eval)
  have h2: "visit_lanes_loop demo_api [''B''] frontier_A = Inr frontier_AB"
    by (simp add: lane_store_eval route_eval)
  have h3: "visit_lanes_loop demo_api [] frontier_AB = Inr frontier_AB"
    by simp
  have h4: "frames_loop demo_api [(3, (25, 1))] frontier_AB = Inr frontier_ABC"
    by (simp add: lane_store_eval route_eval)
  from frontier_disjoint_throughout [OF h1 h2 h3 h4]
  have "frontier_disjoint frontier_A \<and> frontier_disjoint frontier_AB \<and>
        frontier_disjoint frontier_ABC \<and>
        visited_keys frontier_A \<subseteq> visited_keys frontier_ABC \<and>
        visited_keys frontier_A \<inter> unvisited_keys frontier_ABC = {}"
    by blast
  with h1 h2 h3 h4 show ?thesis by blast
qed

section \<open>No cascade within a sample (C10)\<close>

lemma current_lanes_loop_subset:
  "current_lanes_loop api position ks = Inr current \<Longrightarrow> set current \<subseteq> set ks"
  by (induction ks arbitrary: current) (auto split: sum.splits if_splits)

lemma visit_lanes_loop_visited_keys:
  "visit_lanes_loop api ls st = Inr st' \<Longrightarrow> visited_keys st' = visited_keys st \<union> set ls"
proof (induction ls arbitrary: st)
  case Nil
  then show ?case by simp
next
  case (Cons l ls)
  from Cons.prems obtain s where
    s: "visit_lane api l st = Inr s" and rest: "visit_lanes_loop api ls s = Inr st'"
    by (auto split: sum.splits)
  from Cons.IH [OF rest] visit_lane_keys(2) [OF s] show ?case by auto
qed

text \<open>
  Claim C10. When a sample is processed, the lanes to visit are computed from the keys of
  the unvisited dictionary as it is before the first visit, and exactly these lanes become
  visited. So every lane that becomes visited at the sample was an unvisited key before
  the sample: a lane that enters unvisited only during the sample is not visited at it.
\<close>

theorem frame_visits_fixed_before_expansion:
  assumes "route_frame api position st = Inr st'"
  shows "\<exists>current_lanes_ids.
           current_lanes_loop api position (dict_keys (unvisited_lanes_ids st)) = Inr current_lanes_ids \<and>
           visit_lanes_loop api current_lanes_ids st = Inr st' \<and>
           set current_lanes_ids \<subseteq> unvisited_keys st \<and>
           visited_keys st' = visited_keys st \<union> set current_lanes_ids \<and>
           visited_keys st' - visited_keys st \<subseteq> unvisited_keys st"
proof -
  from assms obtain cur where
    cur: "current_lanes_loop api position (dict_keys (unvisited_lanes_ids st)) = Inr cur" and
    run: "visit_lanes_loop api cur st = Inr st'"
    by (auto simp: route_frame_def split: sum.splits)
  from current_lanes_loop_subset [OF cur] have sub: "set cur \<subseteq> unvisited_keys st" .
  from visit_lanes_loop_visited_keys [OF run]
  have vk: "visited_keys st' = visited_keys st \<union> set cur" .
  from sub vk have "visited_keys st' - visited_keys st \<subseteq> unvisited_keys st" by blast
  with cur run sub vk show ?thesis by blast
qed

theorem frame_visits_fixed_before_expansion_witness:
  "route_frame demo_api (7, 1) (seed_frontier [''A'']) = Inr frontier_A \<and>
   get_lanes_ids_at demo_api (7, 1) = Inr [''A'', ''B''] \<and>
   ''B'' \<in> unvisited_keys frontier_A \<and>
   ''B'' \<notin> visited_keys frontier_A \<and>
   visited_keys frontier_A - visited_keys (seed_frontier [''A''])
     \<subseteq> unvisited_keys (seed_frontier [''A''])"
proof -
  have h: "route_frame demo_api (7, 1) (seed_frontier [''A'']) = Inr frontier_A"
    by (simp add: lane_store_eval route_eval)
  have at: "get_lanes_ids_at demo_api (7, 1) = Inr [''A'', ''B'']"
    by (simp add: lane_store_eval)
  have b: "''B'' \<in> unvisited_keys frontier_A \<and> ''B'' \<notin> visited_keys frontier_A"
    by (simp add: frontier_A_def dict_keys_def)
  from frame_visits_fixed_before_expansion [OF h]
  have "visited_keys frontier_A - visited_keys (seed_frontier [''A''])
          \<subseteq> unvisited_keys (seed_frontier [''A''])"
    by blast
  with h at b show ?thesis by blast
qed

section \<open>The walk back ends at an initial lane (C3)\<close>















section \<open>A neighbour that is absent from the element table (C1)\<close>

lemma get_lane_bounds_unknown:
  "ids_to_el api lane_id = None \<Longrightarrow> get_lane_bounds api lane_id = Inl KeyError"
  by (simp add: get_lane_bounds_def get_lane_coords_def get_element_def)

lemma current_lanes_loop_unknown:
  "lane_id \<in> set ks \<Longrightarrow> ids_to_el api lane_id = None \<Longrightarrow>
   \<exists>e. current_lanes_loop api position ks = Inl e"
proof (induction ks)
  case Nil
  then show ?case by simp
next
  case (Cons k ks)
  show ?case
  proof (cases "k = lane_id")
    case True
    with Cons.prems(2) show ?thesis by (simp add: get_lane_bounds_unknown)
  next
    case False
    with Cons obtain e where "current_lanes_loop api position ks = Inl e" by auto
    then show ?thesis by (simp split: sum.splits)
  qed
qed

lemma route_frame_unknown:
  "lane_id \<in> unvisited_keys st \<Longrightarrow> ids_to_el api lane_id = None \<Longrightarrow>
   \<exists>e. route_frame api position st = Inl e"
  using current_lanes_loop_unknown [of lane_id "dict_keys (unvisited_lanes_ids st)" api position]
  by (auto simp: route_frame_def)

text \<open>
  Claim C1, as the code has it. A visit enters every connected lane that is not visited
  into the unvisited dictionary without looking it up, whether the element table holds
  it or not. When a later sample is processed while an identifier that the table does not
  hold is an unvisited key, the bounds lookup of the frame raises, and \<^verbatim>\<open>get_route\<close>
  ends with that error: nothing in the loop absorbs the failure.
\<close>

theorem unknown_neighbor_entered_then_raises:
  "(visit_lane api lane_id st = Inr st' \<and>
    get_connected_lanes_ids api lane_id = Inr connected_lanes_ids \<and>
    connected_lane_id \<in> set connected_lanes_ids \<and>
    connected_lane_id \<notin> visited_keys st' \<longrightarrow>
      connected_lane_id \<in> unvisited_keys st') \<and>
   (route_endpoints api trajectory = Inr (initial_lanes_ids, final_lanes_ids) \<and>
    enumerate 0 trajectory = frames @ (frame_idx, position) # rest \<and>
    frame_idx \<noteq> 0 \<and>
    frames_loop api frames (seed_frontier initial_lanes_ids) = Inr before \<and>
    unknown_id \<in> unvisited_keys before \<and>
    ids_to_el api unknown_id = None \<longrightarrow>
      (\<exists>e. get_route api trajectory = Some (Inl e)))"
proof (intro conjI impI)
  assume h: "visit_lane api lane_id st = Inr st' \<and>
    get_connected_lanes_ids api lane_id = Inr connected_lanes_ids \<and>
    connected_lane_id \<in> set connected_lanes_ids \<and>
    connected_lane_id \<notin> visited_keys st'"
  then have run: "visit_lane api lane_id st = Inr st'" by simp
  from visit_lane_keys(2,3) [OF run] h
  show "connected_lane_id \<in> unvisited_keys st'" by auto
next
  assume h: "route_endpoints api trajectory = Inr (initial_lanes_ids, final_lanes_ids) \<and>
    enumerate 0 trajectory = frames @ (frame_idx, position) # rest \<and>
    frame_idx \<noteq> 0 \<and>
    frames_loop api frames (seed_frontier initial_lanes_ids) = Inr before \<and>
    unknown_id \<in> unvisited_keys before \<and>
    ids_to_el api unknown_id = None"
  then obtain e where e: "route_frame api position before = Inl e"
    using route_frame_unknown [of unknown_id before api position] by blast
  with h have "frames_loop api ((frame_idx, position) # rest) before = Inl e" by simp
  with h have "frames_loop api (enumerate 0 trajectory) (seed_frontier initial_lanes_ids) = Inl e"
    by (simp add: frames_loop_append)
  with h have "get_route api trajectory = Some (Inl e)" by (simp add: get_route_def)
  then show "\<exists>e. get_route api trajectory = Some (Inl e)" by blast
qed

theorem unknown_neighbor_entered_then_raises_witness:
  "visit_lane gap_api ''A'' (seed_frontier [''A'']) = Inr frontier_gap \<and>
   get_connected_lanes_ids gap_api ''A'' = Inr [''Z''] \<and>
   ids_to_el gap_api ''Z'' = None \<and>
   ''Z'' \<in> unvisited_keys frontier_gap \<and>
   route_endpoints gap_api gap_trajectory = Inr ([''A''], [''A'']) \<and>
   enumerate 0 gap_trajectory = [(0, (2, 1)), (1, (2, 1))] @ (2, (2, 1)) # [] \<and>
   frames_loop gap_api [(0, (2, 1)), (1, (2, 1))] (seed_frontier [''A'']) = Inr frontier_gap \<and>
   (\<exists>e. get_route gap_api gap_trajectory = Some (Inl e))"
proof -
  have v: "visit_lane gap_api ''A'' (seed_frontier [''A'']) = Inr frontier_gap"
    by (simp add: lane_store_eval route_eval)
  have c: "get_connected_lanes_ids gap_api ''A'' = Inr [''Z'']"
    by (simp add: lane_store_eval)
  have u: "ids_to_el gap_api ''Z'' = None"
    by (simp add: gap_api_def)
  have nv: "''Z'' \<notin> visited_keys frontier_gap"
    by (simp add: frontier_gap_def dict_keys_def)
  have ep: "route_endpoints gap_api gap_trajectory = Inr ([''A''], [''A''])"
    by (simp add: lane_store_eval route_eval)
  have en: "enumerate 0 gap_trajectory = [(0, (2, 1)), (1, (2, 1))] @ (2, (2, 1)) # []"
    by (simp add: gap_trajectory_def enumerate_eq_zip upt_rec)
  have fl: "frames_loop gap_api [(0, (2, 1)), (1, (2, 1))] (seed_frontier [''A'']) = Inr frontier_gap"
    by (simp add: lane_store_eval route_eval)
  note inst = unknown_neighbor_entered_then_raises
    [where api = gap_api and lane_id = "''A''" and st = "seed_frontier [''A'']"
       and st' = frontier_gap and connected_lanes_ids = "[''Z'']"
       and connected_lane_id = "''Z''" and trajectory = gap_trajectory
       and initial_lanes_ids = "[''A'']" and final_lanes_ids = "[''A'']"
       and frames = "[(0, (2, 1)), (1, (2, 1))]" and frame_idx = 2 and position = "(2, 1)"
       and rest = "[]" and before = frontier_gap and unknown_id = "''Z''"]
  from inst v c nv have z: "''Z'' \<in> unvisited_keys frontier_gap" by simp
  from inst ep en fl z u have "\<exists>e. get_route gap_api gap_trajectory = Some (Inl e)" by simp
  with v c u z ep en fl show ?thesis by blast
qed

text \<open>
  The claim as the specification states it fails on the tile with the gap: lane A names Z
  as its lane ahead, Z is not in the element table, and the reconstruction of a drive of
  three samples inside A ends with \<^verbatim>\<open>KeyError\<close> instead of a route.
\<close>

theorem missing_neighbor_aborts_route:
  "get_connected_lanes_ids gap_api ''A'' = Inr [''Z''] \<and>
   ids_to_el gap_api ''Z'' = None \<and>
   get_route gap_api gap_trajectory = Some (Inl KeyError)"
  by (simp add: lane_store_eval route_eval)

section \<open>A trajectory of two samples (C9)\<close>

text \<open>
  Claim C9. For a trajectory of exactly two samples, index \<open>-2\<close> is index \<open>0\<close>: the
  final position is the initial position, and the initial and the final lanes are the
  same sequence, computed from that one position.
\<close>

theorem two_samples_same_endpoints:
  assumes "length trajectory = 2"
  shows "initial_position trajectory = Inr (trajectory ! 0) \<and>
         final_position trajectory = Inr (trajectory ! 0) \<and>
         route_endpoints api trajectory =
           (case get_lanes_ids_at api (trajectory ! 0) of
              Inl e \<Rightarrow> Inl e
            | Inr lanes_ids \<Rightarrow> Inr (lanes_ids, lanes_ids))"
  using assms
  by (simp add: initial_position_def final_position_def py_index_def route_endpoints_def
      split: sum.splits)

theorem two_samples_same_endpoints_witness:
  "length [(2, 1), (25, 1) :: point] = 2 \<and>
   initial_position [(2, 1), (25, 1)] = Inr (2, 1) \<and>
   final_position [(2, 1), (25, 1)] = Inr (2, 1) \<and>
   route_endpoints demo_api [(2, 1), (25, 1)] = Inr ([''A''], [''A''])"
proof -
  have l: "length [(2, 1), (25, 1) :: point] = 2" by simp
  have at: "get_lanes_ids_at demo_api (2, 1) = Inr [''A'']"
    by (simp add: lane_store_eval)
  from two_samples_same_endpoints [OF l, of demo_api] at l show ?thesis by simp
qed

section \<open>Strict containment (C5)\<close>

lemma lanes_ids_at_loop_member:
  "lanes_ids_at_loop api position els = Inr lanes_ids \<Longrightarrow> lane_id \<in> set lanes_ids \<Longrightarrow>
   \<exists>b. get_lane_bounds api lane_id = Inr b \<and> in_bounds position b"
proof (induction els arbitrary: lanes_ids)
  case Nil
  then show ?case by simp
next
  case (Cons element rest)
  show ?case
  proof (cases "is_lane element")
    case False
    with Cons show ?thesis by simp
  next
    case True
    with Cons.prems obtain b ids where
      b: "get_lane_bounds api (element_id element) = Inr b" and
      ids: "lanes_ids_at_loop api position rest = Inr ids" and
      res: "lanes_ids = (if in_bounds position b then element_id element # ids else ids)"
      by (auto split: sum.splits)
    show ?thesis
    proof (cases "lane_id \<in> set ids")
      case True
      with Cons.IH ids show ?thesis by blast
    next
      case False
      with Cons.prems(2) res have "in_bounds position b \<and> lane_id = element_id element"
        by (auto split: if_splits)
      with b show ?thesis by blast
    qed
  qed
qed

text \<open>
  Claim C5. \<^verbatim>\<open>in_bounds\<close> is the conjunction of the four strict inequalities, so a
  position on one of the four edges of a box is outside it; and every identifier that
  \<^verbatim>\<open>get_lanes_ids_at\<close> returns has a bounding box that contains the position strictly.
\<close>

theorem lanes_containing_strict:
  "(in_bounds (x, y) ((x_min, y_min), (x_max, y_max)) \<longleftrightarrow>
      x_min < x \<and> x < x_max \<and> y_min < y \<and> y < y_max) \<and>
   (x = x_min \<or> x = x_max \<or> y = y_min \<or> y = y_max \<longrightarrow>
      \<not> in_bounds (x, y) ((x_min, y_min), (x_max, y_max))) \<and>
   (get_lanes_ids_at api (x, y) = Inr lanes_ids \<and> lane_id \<in> set lanes_ids \<longrightarrow>
      (\<exists>bx_min by_min bx_max by_max.
         get_lane_bounds api lane_id = Inr ((bx_min, by_min), (bx_max, by_max)) \<and>
         bx_min < x \<and> x < bx_max \<and> by_min < y \<and> y < by_max))"
proof (intro conjI impI)
  show "in_bounds (x, y) ((x_min, y_min), (x_max, y_max)) \<longleftrightarrow>
      x_min < x \<and> x < x_max \<and> y_min < y \<and> y < y_max"
    by (auto simp: in_bounds_def)
  show "\<not> in_bounds (x, y) ((x_min, y_min), (x_max, y_max))"
    if "x = x_min \<or> x = x_max \<or> y = y_min \<or> y = y_max"
    using that by (auto simp: in_bounds_def)
  show "\<exists>bx_min by_min bx_max by_max.
         get_lane_bounds api lane_id = Inr ((bx_min, by_min), (bx_max, by_max)) \<and>
         bx_min < x \<and> x < bx_max \<and> by_min < y \<and> y < by_max"
    if h: "get_lanes_ids_at api (x, y) = Inr lanes_ids \<and> lane_id \<in> set lanes_ids"
  proof -
    from h obtain b where b: "get_lane_bounds api lane_id = Inr b" "in_bounds (x, y) b"
      unfolding get_lanes_ids_at_def using lanes_ids_at_loop_member by blast
    obtain bx_min by_min bx_max by_max where "b = ((bx_min, by_min), (bx_max, by_max))"
      by (metis surj_pair)
    with b show ?thesis by (auto simp: in_bounds_def)
  qed
qed

theorem lanes_containing_strict_witness:
  "get_lanes_ids_at demo_api (7, 1) = Inr [''A'', ''B''] \<and>
   \<not> in_bounds (7, 1) ((7, 0), (20, 2)) \<and>
   (\<exists>bx_min by_min bx_max by_max.
      get_lane_bounds demo_api ''B'' = Inr ((bx_min, by_min), (bx_max, by_max)) \<and>
      bx_min < 7 \<and> 7 < bx_max \<and> by_min < 1 \<and> 1 < by_max)"
proof -
  have ids: "get_lanes_ids_at demo_api (7, 1) = Inr [''A'', ''B'']"
    by (simp add: lane_store_eval)
  from lanes_containing_strict
    [where x = 7 and y = 1 and x_min = 7 and y_min = 0 and x_max = 20 and y_max = 2
       and api = demo_api and lanes_ids = "[''A'', ''B'']" and lane_id = "''B''"] ids
  show ?thesis by simp
qed

section \<open>Rounding to float64\<close>

lemma ilog2_bounds:
  assumes "0 < x"
  shows "2 powi ilog2 x \<le> x" and "x < 2 powi (ilog2 x + 1)"
proof -
  have "\<lfloor>log 2 x\<rfloor> = ilog2 x" by (simp add: ilog2_def)
  then have "2 powr real_of_int (ilog2 x) \<le> x \<and> x < 2 powr (real_of_int (ilog2 x) + 1)"
    using assms by (simp add: floor_log_eq_powr_iff)
  moreover have "(2::real) powr real_of_int (ilog2 x) = 2 powi ilog2 x"
    by (simp add: powr_real_of_int')
  moreover have "(2::real) powr (real_of_int (ilog2 x) + 1) = 2 powi (ilog2 x + 1)"
    using powr_real_of_int' [of 2 "ilog2 x + 1"] by simp
  ultimately show "2 powi ilog2 x \<le> x" and "x < 2 powi (ilog2 x + 1)" by simp_all
qed

lemma ilog2_eqI:
  assumes "2 powi e \<le> x" and "x < 2 powi (e + 1)"
  shows "ilog2 x = e"
proof -
  have "(0::real) < 2 powi e" by simp
  with assms(1) have pos: "0 < x" by linarith
  have "(2::real) powr real_of_int e = 2 powi e"
    by (simp add: powr_real_of_int')
  moreover have "(2::real) powr (real_of_int e + 1) = 2 powi (e + 1)"
    using powr_real_of_int' [of 2 "e + 1"] by simp
  ultimately have "2 powr real_of_int e \<le> x \<and> x < 2 powr (real_of_int e + 1)"
    using assms by simp
  with pos show ?thesis unfolding ilog2_def by (simp add: floor_log_eq_powr_iff)
qed

lemma round_half_even_close:
  assumes "\<bar>y - of_int m\<bar> < 1 / 2"
  shows "round_half_even y = m"
proof -
  consider "of_int m \<le> y" | "y < of_int m" by linarith
  then show ?thesis
  proof cases
    case 1
    with assms have "\<lfloor>y\<rfloor> = m" by (intro floor_unique) linarith+
    with assms 1 show ?thesis by (simp add: round_half_even_def Let_def)
  next
    case 2
    with assms have f: "\<lfloor>y\<rfloor> = m - 1" by (intro floor_unique) (simp, linarith)
    with assms 2 show ?thesis by (simp add: round_half_even_def Let_def)
  qed
qed

lemma round_half_even_of_int [simp]: "round_half_even (of_int k) = k"
  by (rule round_half_even_close) simp

lemma round_half_even_error: "\<bar>of_int (round_half_even y) - y\<bar> \<le> 1 / 2"
proof -
  have "of_int \<lfloor>y\<rfloor> \<le> y" "y < of_int \<lfloor>y\<rfloor> + 1" by linarith+
  then show ?thesis by (auto simp: round_half_even_def Let_def)
qed

lemma round_half_even_le:
  assumes "y \<le> of_int k"
  shows "round_half_even y \<le> k"
proof -
  have "\<lfloor>y\<rfloor> \<le> k" using assms by (simp add: floor_le_iff)
  moreover have "\<lfloor>y\<rfloor> = k \<Longrightarrow> y = of_int k" using assms by linarith
  ultimately show ?thesis
    by (cases "\<lfloor>y\<rfloor> = k") (auto simp: round_half_even_def Let_def)
qed

lemma round_half_even_ge:
  assumes "of_int k \<le> y"
  shows "k \<le> round_half_even y"
proof -
  have "k \<le> \<lfloor>y\<rfloor>" using assms by (simp add: le_floor_iff)
  then show ?thesis by (auto simp: round_half_even_def Let_def)
qed

lemma pow2_less_iff: "(2::real) powi a < 2 powi b \<longleftrightarrow> a < b"
proof
  assume "(2::real) powi a < 2 powi b"
  show "a < b"
  proof (rule ccontr)
    assume "\<not> a < b"
    then have "b \<le> a" by simp
    then have "(2::real) powi b \<le> 2 powi a" by (intro power_int_increasing) simp_all
    with \<open>(2::real) powi a < 2 powi b\<close> show False by simp
  qed
next
  assume "a < b"
  then show "(2::real) powi a < 2 powi b" by (intro power_int_strict_increasing) simp_all
qed

lemma pow2_le_iff: "(2::real) powi a \<le> 2 powi b \<longleftrightarrow> a \<le> b"
  using pow2_less_iff [of b a] by (auto simp: not_less [symmetric])

lemma pow2_pos: "0 < (2::real) powi a"
  by simp

lemma pow2_half: "(2::real) powi (e - 53) = 2 powi (e - 52) / 2"
proof -
  have "(2::real) powi (e - 52) = 2 powi (e - 53 + 1)" by simp
  also have "\<dots> = 2 powi (e - 53) * 2" by (subst power_int_add) simp_all
  finally show ?thesis by simp
qed

lemma f64_round_eqI:
  assumes nz: "x \<noteq> 0"
      and ex: "max (ilog2 \<bar>x\<bar>) (- 1022) = e"
      and v: "v = of_int m * 2 powi (e - 52)"
      and close: "\<bar>x - v\<bar> < 2 powi (e - 53)"
      and fin: "\<bar>v\<bar> < 2 powi 1024"
  shows "f64_round x = Finite v"
proof -
  let ?q = "(2::real) powi (e - 52)"
  have q: "0 < ?q" by simp
  have "x / ?q - of_int m = (x - v) / ?q" using q by (simp add: v field_simps)
  then have "\<bar>x / ?q - of_int m\<bar> = \<bar>x - v\<bar> / ?q" using q by simp
  also have "\<dots> < (?q / 2) / ?q"
    using close q by (intro divide_strict_right_mono) (simp_all only: pow2_half)
  also have "\<dots> = 1 / 2" using q by simp
  finally have "round_half_even (x / ?q) = m" by (rule round_half_even_close)
  with nz ex fin show ?thesis by (simp add: f64_round_def Let_def v not_le)
qed

text \<open>A real halfway between two values is rounded to the one with the even significand.\<close>

lemma round_half_even_tie:
  assumes "\<bar>y - of_int m\<bar> = 1 / 2" and "even m"
  shows "round_half_even y = m"
proof -
  from assms(1) consider "y = of_int m + 1 / 2" | "y = of_int m - 1 / 2"
    by (auto simp: abs_if split: if_splits)
  then show ?thesis
  proof cases
    case 1
    then have "\<lfloor>y\<rfloor> = m" by (intro floor_unique) simp_all
    with 1 assms(2) show ?thesis by (simp add: round_half_even_def Let_def)
  next
    case 2
    then have f: "\<lfloor>y\<rfloor> = m - 1" by (intro floor_unique) simp_all
    from assms(2) have "odd (m - 1)" by simp
    with 2 f show ?thesis by (simp add: round_half_even_def Let_def)
  qed
qed

lemma f64_round_tieI:
  assumes nz: "x \<noteq> 0"
      and ex: "max (ilog2 \<bar>x\<bar>) (- 1022) = e"
      and v: "v = of_int m * 2 powi (e - 52)"
      and tie: "\<bar>x - v\<bar> = 2 powi (e - 53)"
      and ev: "even m"
      and fin: "\<bar>v\<bar> < 2 powi 1024"
  shows "f64_round x = Finite v"
proof -
  let ?q = "(2::real) powi (e - 52)"
  have q: "0 < ?q" by simp
  have "x / ?q - of_int m = (x - v) / ?q" using q by (simp add: v field_simps)
  then have "\<bar>x / ?q - of_int m\<bar> = \<bar>x - v\<bar> / ?q" using q by simp
  also have "\<dots> = (?q / 2) / ?q" by (simp only: tie pow2_half)
  also have "\<dots> = 1 / 2" using q by simp
  finally have "round_half_even (x / ?q) = m" using ev by (rule round_half_even_tie)
  with nz ex fin show ?thesis by (simp add: f64_round_def Let_def v not_le)
qed

lemma f64_exponent_normal:
  assumes "2 powi e \<le> \<bar>x\<bar>" and "\<bar>x\<bar> < 2 powi (e + 1)" and "- 1022 \<le> e"
  shows "max (ilog2 \<bar>x\<bar>) (- 1022) = e"
  using ilog2_eqI [OF assms(1,2)] assms(3) by simp

lemma f64_exponent_subnormal:
  assumes "x \<noteq> 0" and "\<bar>x\<bar> < 2 powi (- 1022)"
  shows "max (ilog2 \<bar>x\<bar>) (- 1022) = - 1022"
proof -
  from assms(1) have "0 < \<bar>x\<bar>" by simp
  from ilog2_bounds(1) [OF this] assms(2) have "(2::real) powi ilog2 \<bar>x\<bar> < 2 powi (- 1022)"
    by linarith
  then have "ilog2 \<bar>x\<bar> < - 1022" by (simp only: pow2_less_iff)
  then show ?thesis by linarith
qed

lemma f64_exponent_ge: "- 1022 \<le> max (ilog2 \<bar>x\<bar>) (- 1022)"
  by simp

lemma f64_exponent_upper:
  assumes "x \<noteq> 0"
  shows "\<bar>x\<bar> < 2 powi (max (ilog2 \<bar>x\<bar>) (- 1022) + 1)"
proof -
  from assms have "0 < \<bar>x\<bar>" by simp
  from ilog2_bounds(2) [OF this] have "\<bar>x\<bar> < 2 powi (ilog2 \<bar>x\<bar> + 1)" .
  also have "\<dots> \<le> 2 powi (max (ilog2 \<bar>x\<bar>) (- 1022) + 1)"
    by (simp add: pow2_le_iff)
  finally show ?thesis .
qed

text \<open>A value on the grid of its own binade is its own rounding.\<close>

lemma f64_round_grid:
  assumes x: "x = of_int k * 2 powi j"
      and k: "\<bar>k\<bar> < 2 ^ 53"
      and j: "- 1074 \<le> j"
      and fin: "\<bar>x\<bar> < 2 powi 1024"
  shows "f64_round x = Finite x"
proof (cases "x = 0")
  case True
  then show ?thesis by (simp add: f64_round_def)
next
  case False
  define e where "e = max (ilog2 \<bar>x\<bar>) (- 1022)"
  have "0 < \<bar>x\<bar>" using False by simp
  have je: "e - 52 \<le> j"
  proof (cases "ilog2 \<bar>x\<bar> \<le> - 1022")
    case True
    then have "e = - 1022" by (simp add: e_def)
    with j show ?thesis by simp
  next
    case False
    then have e: "e = ilog2 \<bar>x\<bar>" by (simp add: e_def)
    have "\<bar>x\<bar> = of_int \<bar>k\<bar> * 2 powi j" by (simp add: x abs_mult)
    also have "\<dots> < 2 ^ 53 * 2 powi j"
    proof -
      from k have "real_of_int \<bar>k\<bar> < 2 ^ 53"
        by (metis of_int_less_iff of_int_numeral of_int_power)
      then show ?thesis by (intro mult_strict_right_mono) simp_all
    qed
    also have "\<dots> = 2 powi (53 + j)" by (subst power_int_add) simp_all
    finally have "\<bar>x\<bar> < 2 powi (53 + j)" .
    with ilog2_bounds(1) [OF \<open>0 < \<bar>x\<bar>\<close>] have "(2::real) powi ilog2 \<bar>x\<bar> < 2 powi (53 + j)"
      by linarith
    then have "ilog2 \<bar>x\<bar> < 53 + j" by (simp only: pow2_less_iff)
    with e show ?thesis by simp
  qed
  define d where "d = nat (j - (e - 52))"
  have ej: "j = (e - 52) + int d" using je by (simp add: d_def)
  have "(2::real) powi j = 2 powi (e - 52) * 2 ^ d"
    unfolding ej by (subst power_int_add) simp_all
  then have v: "x = of_int (k * 2 ^ d) * 2 powi (e - 52)" by (simp add: x)
  have ex: "max (ilog2 \<bar>x\<bar>) (- 1022) = e" by (simp only: e_def)
  have close: "\<bar>x - x\<bar> < 2 powi (e - 53)" by simp
  from False ex v close fin show ?thesis by (rule f64_round_eqI)
qed

lemma pow2_1024_gt: "x \<le> 2 ^ 53 \<Longrightarrow> x < (2::real) powi 1024"
proof -
  assume "x \<le> 2 ^ 53"
  also have "(2::real) ^ 53 = 2 powi 53" by simp
  also have "\<dots> < 2 powi 1024" by (simp only: pow2_less_iff)
  finally show ?thesis .
qed

lemma f64_round_nat:
  assumes "n < 2 ^ 53"
  shows "f64_round (real n) = Finite (real n)"
proof (rule f64_round_grid [where k = "int n" and j = 0])
  show "real n = real_of_int (int n) * 2 powi 0" by simp
  from assms show "\<bar>int n\<bar> < 2 ^ 53"
    by (metis abs_of_nat of_nat_less_iff of_nat_numeral of_nat_power)
  show "- 1074 \<le> (0::int)" by simp
  from assms have "real n \<le> 2 ^ 53"
    by (metis less_imp_le of_nat_le_iff of_nat_numeral of_nat_power)
  then show "\<bar>real n\<bar> < 2 powi 1024" using pow2_1024_gt by simp
qed

lemma f64_round_unit:
  assumes "0 \<le> x" and "x \<le> 1"
  shows "\<exists>v. f64_round x = Finite v \<and> 0 \<le> v \<and> v \<le> 1"
proof (cases "x = 0")
  case True
  then show ?thesis by (simp add: f64_round_def)
next
  case False
  with assms have pos: "0 < x" by simp
  define e where "e = max (ilog2 \<bar>x\<bar>) (- 1022)"
  define q where "q = (2::real) powi (e - 52)"
  define m where "m = round_half_even (x / q)"
  have qpos: "0 < q" by (simp add: q_def)
  have "(2::real) powi ilog2 x \<le> x" using pos by (rule ilog2_bounds)
  also have "x < 2 powi 1" using assms by simp
  finally have "ilog2 x < 1" by (simp only: pow2_less_iff)
  then have e0: "e \<le> 0" using pos by (simp add: e_def)
  define K :: int where "K = 2 ^ nat (52 - e)"
  have "(2::real) powi (52 - e) = 2 ^ nat (52 - e)"
    using e0 by (simp add: power_int_def)
  moreover have "(2::real) powi (52 - e) = 1 / q"
    unfolding q_def using power_int_minus_divide [of "2::real" "e - 52"] by simp
  ultimately have K: "of_int K = 1 / q" by (simp add: K_def)
  have "x / q \<le> 1 / q" using assms qpos by (simp add: divide_right_mono)
  then have "x / q \<le> of_int K" by (simp add: K)
  then have "m \<le> K" unfolding m_def by (rule round_half_even_le)
  then have "real_of_int m \<le> of_int K" by simp
  then have "of_int m * q \<le> of_int K * q" using qpos by (simp add: mult_right_mono)
  then have up: "of_int m * q \<le> 1" using qpos by (simp add: K)
  have "of_int 0 \<le> x / q" using pos qpos by simp
  then have "0 \<le> m" unfolding m_def by (rule round_half_even_ge)
  then have lo: "0 \<le> of_int m * q" using qpos by simp
  have "(1::real) \<le> 2 ^ 53" by simp
  with lo up have "\<bar>of_int m * q\<bar> \<le> 2 ^ 53" by linarith
  then have "\<not> 2 powi 1024 \<le> \<bar>of_int m * q\<bar>" using pow2_1024_gt by (simp add: not_le)
  then have "f64_round x = Finite (of_int m * q)"
    using False by (simp add: f64_round_def Let_def e_def [symmetric] q_def [symmetric]
        m_def [symmetric])
  with lo up show ?thesis by blast
qed

text \<open>In the normal range rounding moves a value by at most the fraction \<open>2\<^sup>-\<^sup>5\<^sup>3\<close> of it.\<close>

lemma f64_round_relative:
  assumes lo: "2 powi (- 1022) \<le> x" and hi: "x \<le> 1"
  shows "\<exists>v. f64_round x = Finite v \<and> 0 \<le> v \<and> v \<le> x * (1 + 2 powi (- 53))"
proof -
  have "(0::real) < 2 powi (- 1022)" by simp
  with lo have pos: "0 < x" by linarith
  then have nz: "x \<noteq> 0" by simp
  define e where "e = max (ilog2 \<bar>x\<bar>) (- 1022)"
  define q where "q = (2::real) powi (e - 52)"
  define m where "m = round_half_even (x / q)"
  have qpos: "0 < q" by (simp add: q_def)
  have "(2::real) powi (- 1022) \<le> x" by (rule lo)
  also have "x < 2 powi (ilog2 x + 1)" using pos by (rule ilog2_bounds)
  finally have "- 1022 < ilog2 x + 1" by (simp only: pow2_less_iff)
  then have e: "e = ilog2 x" using pos by (simp add: e_def)
  have ex: "2 powi e \<le> x" unfolding e using pos by (rule ilog2_bounds)
  from f64_round_unit [of x] pos hi obtain v where
    v: "f64_round x = Finite v" "0 \<le> v" "v \<le> 1" by auto
  have "\<not> 2 powi 1024 \<le> \<bar>of_int m * q\<bar> \<Longrightarrow> f64_round x = Finite (of_int m * q)"
    using nz by (simp add: f64_round_def Let_def e_def [symmetric] q_def [symmetric]
        m_def [symmetric])
  moreover have "2 powi 1024 \<le> \<bar>of_int m * q\<bar> \<Longrightarrow> f64_round x \<noteq> Finite v"
    using nz by (simp add: f64_round_def Let_def e_def [symmetric] q_def [symmetric]
        m_def [symmetric])
  ultimately have vm: "v = of_int m * q" using v(1) by (cases "2 powi 1024 \<le> \<bar>of_int m * q\<bar>") auto
  have "\<bar>of_int m - x / q\<bar> \<le> 1 / 2" unfolding m_def by (rule round_half_even_error)
  then have "of_int m \<le> x / q + 1 / 2" by linarith
  then have "of_int m * q \<le> (x / q + 1 / 2) * q" using qpos by (simp add: mult_right_mono)
  also have "\<dots> = x + q / 2" using qpos by (simp add: field_simps)
  also have "q / 2 = 2 powi (e - 53)" by (simp add: q_def pow2_half)
  also have "(2::real) powi (e - 53) = 2 powi e * 2 powi (- 53)"
    using power_int_add [of "2::real" e "- 53"] by simp
  also have "x + 2 powi e * 2 powi (- 53) \<le> x + x * 2 powi (- 53)"
    using ex by (simp add: mult_right_mono)
  finally have "v \<le> x * (1 + 2 powi (- 53))" by (simp add: vm algebra_simps)
  with v show ?thesis by blast
qed

lemma Finite_le_iff [simp]: "Finite a \<le> Finite b \<longleftrightarrow> a \<le> b"
  by (simp add: less_eq_float64_def)

lemma Finite_less_iff [simp]: "Finite a < Finite b \<longleftrightarrow> a < b"
  by (simp add: less_float64_def)

lemma Finite_le_PosInf [simp]: "Finite a \<le> PosInf" "\<not> PosInf \<le> Finite a" "PosInf \<le> PosInf"
  by (simp_all add: less_eq_float64_def)

lemma f64_round_0 [simp]: "f64_round 0 = Finite 0"
  by (simp add: f64_round_def)

lemma f64_round_int:
  assumes "\<bar>k\<bar> < 2 ^ 53"
  shows "f64_round (of_int k) = Finite (of_int k)"
proof (rule f64_round_grid [where k = k and j = 0])
  show "real_of_int k = real_of_int k * 2 powi 0" by simp
  show "\<bar>k\<bar> < 2 ^ 53" by (rule assms)
  show "- 1074 \<le> (0::int)" by simp
  from assms have "real_of_int \<bar>k\<bar> \<le> 2 ^ 53"
    by (metis less_imp_le of_int_le_iff of_int_numeral of_int_power)
  then show "\<bar>real_of_int k\<bar> < 2 powi 1024" using pow2_1024_gt by simp
qed

text \<open>Integers below \<open>2\<^sup>5\<^sup>3\<close> are float64 values; these rules evaluate their rounding.\<close>

lemma f64_round_1: "f64_round 1 = Finite 1"
  using f64_round_int [of 1] by simp

lemma f64_round_numeral:
  "(numeral n :: int) < 2 ^ 53 \<Longrightarrow> f64_round (numeral n) = Finite (numeral n)"
  using f64_round_int [of "numeral n"] by simp

lemma f64_round_neg_numeral:
  "(numeral n :: int) < 2 ^ 53 \<Longrightarrow> f64_round (- numeral n) = Finite (- numeral n)"
  using f64_round_int [of "- numeral n"] by simp

text \<open>The rounding of a square root, from bounds on the squares.\<close>

lemma f64_round_sqrtI:
  assumes e: "- 1022 \<le> e"
      and lo: "(2 powi e)\<^sup>2 \<le> s"
      and hi: "s < (2 powi (e + 1))\<^sup>2"
      and v: "v = of_int m * 2 powi (e - 52)"
      and below: "(v - 2 powi (e - 53))\<^sup>2 < s"
      and above: "s < (v + 2 powi (e - 53))\<^sup>2"
      and pos: "0 \<le> v + 2 powi (e - 53)"
      and fin: "\<bar>v\<bar> < 2 powi 1024"
  shows "f64_round (sqrt s) = Finite v"
proof (rule f64_round_eqI [where e = e and m = m])
  have p: "0 < (2::real) powi e" by simp
  from lo have l: "2 powi e \<le> sqrt s" by (rule real_le_rsqrt)
  with p show "sqrt s \<noteq> 0" by linarith
  have "0 \<le> (2::real) powi (e + 1)" by simp
  then have u: "sqrt s < 2 powi (e + 1)" using hi by (rule real_less_lsqrt)
  from l p have a: "\<bar>sqrt s\<bar> = sqrt s" by linarith
  show "max (ilog2 \<bar>sqrt s\<bar>) (- 1022) = e"
  proof (rule f64_exponent_normal)
    from l show "2 powi e \<le> \<bar>sqrt s\<bar>" by (simp only: a)
    from u show "\<bar>sqrt s\<bar> < 2 powi (e + 1)" by (simp only: a)
    show "- 1022 \<le> e" by (rule e)
  qed
  show "v = of_int m * 2 powi (e - 52)" by (rule v)
  from below have "v - 2 powi (e - 53) < sqrt s" by (rule real_less_rsqrt)
  moreover from pos above have "sqrt s < v + 2 powi (e - 53)" by (rule real_less_lsqrt)
  ultimately show "\<bar>sqrt s - v\<bar> < 2 powi (e - 53)" by (simp add: abs_less_iff)
  show "\<bar>v\<bar> < 2 powi 1024" by (rule fin)
qed

lemma f64_round_half: "f64_round (1 / 2) = Finite (1 / 2)"
  by (rule f64_round_grid [where k = 1 and j = "- 1"]) simp_all



lemma sqrt_of_squares:
  "sqrt 25 = 5" "sqrt 36 = 6" "sqrt 100 = 10" "sqrt 144 = 12"
  "sqrt 8281 = 91" "sqrt 9025 = 95" "sqrt 9801 = 99"
  by (rule real_sqrt_unique; simp)+

lemmas float_eval =
  point_diff_def np_linalg_norm_def np_linalg_norm_vector_def dot_unfused_def f64_sub_def
  f64_round_1 f64_round_numeral f64_round_neg_numeral f64_round_half sqrt_of_squares

section \<open>The values of linspace\<close>

lemma length_np_linspace_0_1 [simp]: "length (np_linspace_0_1 num) = num"
  by (simp add: np_linspace_0_1_def Let_def)

lemma np_linspace_0_1_unit:
  assumes i: "i < num" and num: "num \<le> 2 ^ 53"
  shows "\<exists>v. np_linspace_0_1 num ! i = Finite v \<and> 0 \<le> v \<and> v \<le> 1"
proof -
  consider "num = 1" | "1 < num" "i = num - 1" | "1 < num" "i < num - 1"
    using i by linarith
  then show ?thesis
  proof cases
    case 1
    with i show ?thesis by (simp add: np_linspace_0_1_def)
  next
    case 2
    then show ?thesis by (simp add: np_linspace_0_1_def Let_def nth_append)
  next
    case 3
    define d where "d = num - 1"
    have d1: "1 \<le> d" and id: "i < d" using 3 by (simp_all add: d_def)
    have d53: "d < 2 ^ 53" using num 3 by (simp add: d_def)
    then have i53: "i < 2 ^ 53" using id by simp
    have rd: "real d \<le> 2 ^ 53"
      using d53 by (metis less_imp_le of_nat_le_iff of_nat_numeral of_nat_power)
    have dpos: "0 < real d" using d1 by simp
    have fd: "f64_round (real d) = Finite (real d)" using d53 by (rule f64_round_nat)
    have fi: "f64_round (real i) = Finite (real i)" using i53 by (rule f64_round_nat)
    have "(2::real) powi (- 1022) \<le> 2 powi (- 53)" by (simp only: pow2_le_iff)
    also have "(2::real) powi (- 53) = 1 / 2 ^ 53"
      using power_int_minus_divide [of "2::real" 53] by simp
    also have "\<dots> \<le> 1 / real d" using rd dpos by (simp add: frac_le)
    finally have lo: "2 powi (- 1022) \<le> 1 / real d" .
    have hi: "1 / real d \<le> 1" using d1 by simp
    define eps where "eps = (2::real) powi (- 53)"
    have eps: "eps = 1 / 2 ^ 53"
      unfolding eps_def using power_int_minus_divide [of "2::real" 53] by simp
    from f64_round_relative [OF lo hi, folded eps_def] obtain s where
      s: "f64_round (1 / real d) = Finite s" "0 \<le> s" "s \<le> 1 / real d * (1 + eps)"
      by blast
    have step: "f64_div (Finite 1) (f64_round (real d)) = Finite s"
      using dpos by (simp add: fd s(1))
    have "real i * s \<le> real i * (1 / real d * (1 + eps))"
      using s(3) by (intro mult_left_mono) simp_all
    also have "\<dots> \<le> (real d - 1) * (1 / real d * (1 + eps))"
    proof -
      from id have "real i \<le> real d - 1" by linarith
      moreover have "0 \<le> 1 / real d * (1 + eps)" using dpos by (simp add: eps)
      ultimately show ?thesis by (rule mult_right_mono)
    qed
    also have "\<dots> \<le> 1"
    proof -
      have "real d * eps \<le> 1" using rd by (simp add: eps)
      moreover have "0 \<le> eps" by (simp add: eps)
      ultimately have "(real d - 1) * (1 + eps) \<le> real d"
        by (simp add: algebra_simps)
      then have "(real d - 1) * (1 + eps) / real d \<le> 1"
        using dpos by (simp add: divide_le_eq)
      then show ?thesis by simp
    qed
    finally have up: "real i * s \<le> 1" .
    have lo: "0 \<le> real i * s" using s(2) by simp
    from f64_round_unit [OF lo up] obtain v where
      v: "f64_round (real i * s) = Finite v" "0 \<le> v" "v \<le> 1" by blast
    have "np_linspace_0_1 num ! i = f64_mul (f64_round (real i)) (Finite s)"
      using 3 step by (simp add: np_linspace_0_1_def Let_def nth_append d_def)
    also have "\<dots> = Finite v" by (simp add: fi v(1))
    finally show ?thesis using v by blast
  qed
qed

section \<open>The contract of the sort\<close>

lemma argsort_ok_set: "argsort_ok f \<Longrightarrow> set (f xs) = {0..<length xs}"
  unfolding argsort_ok_def by (metis mset_eq_setD set_upt)

lemma argsort_ok_length: "argsort_ok f \<Longrightarrow> length (f xs) = length xs"
  unfolding argsort_ok_def by (metis size_mset length_upt diff_zero)

lemma argsort_ok_sorted: "argsort_ok f \<Longrightarrow> sorted (map (\<lambda>i. xs ! i) (f xs))"
  unfolding argsort_ok_def by blast

lemma argsort_ok_take:
  assumes "argsort_ok f" and "length ys = length xs"
  shows "np_take ys (f xs) = Inr (map (\<lambda>i. ys ! i) (f xs))"
  using argsort_ok_set [OF assms(1), of xs] assms(2)
  by (auto simp: np_take_def list_all_iff)

lemma argsort_ok_mset:
  assumes "argsort_ok f" and "length ys = length xs"
  shows "mset (map (\<lambda>i. ys ! i) (f xs)) = mset ys"
proof -
  from assms(1) have "mset (f xs) = mset [0..<length xs]" by (simp add: argsort_ok_def)
  then have "image_mset (\<lambda>i. ys ! i) (mset (f xs)) = image_mset (\<lambda>i. ys ! i) (mset [0..<length xs])"
    by simp
  then have "mset (map (\<lambda>i. ys ! i) (f xs)) = mset (map (\<lambda>i. ys ! i) [0..<length ys])"
    by (simp add: assms(2))
  then show ?thesis by (simp add: map_nth)
qed

lemma argsort_ok_hd:
  assumes ok: "argsort_ok f" and ne: "xs \<noteq> []"
  shows "f xs \<noteq> []" and "hd (f xs) < length xs" and "\<forall>y \<in> set xs. xs ! hd (f xs) \<le> y"
proof -
  from argsort_ok_length [OF ok, of xs] ne show ne': "f xs \<noteq> []" by auto
  then have "hd (f xs) \<in> set (f xs)" by simp
  with argsort_ok_set [OF ok, of xs] show lt: "hd (f xs) < length xs" by simp
  have set_eq: "set (map (\<lambda>i. xs ! i) (f xs)) = set xs"
    using argsort_ok_mset [OF ok refl, of xs] by (metis set_mset_mset)
  have "xs ! hd (f xs) \<le> y" if "y \<in> set xs" for y
  proof -
    from that set_eq have "y \<in> set (map (\<lambda>i. xs ! i) (f xs))" by simp
    moreover have "map (\<lambda>i. xs ! i) (f xs) = xs ! hd (f xs) # map (\<lambda>i. xs ! i) (tl (f xs))"
      using ne' by (cases "f xs") simp_all
    ultimately show ?thesis using argsort_ok_sorted [OF ok, of xs] by auto
  qed
  then show "\<forall>y \<in> set xs. xs ! hd (f xs) \<le> y" by blast
qed

lemma argsort_stable_ok: "argsort_ok argsort_stable"
  by (simp add: argsort_ok_def argsort_stable_def)

lemma demo_argsort_ok: "argsort_ok (np_argsort demo_api)"
  by (simp add: demo_api_def argsort_stable_ok)

lemma rounding_argsort_ok: "argsort_ok (np_argsort rounding_api)"
  by (simp add: rounding_api_def demo_api_def argsort_stable_ok)





section \<open>The nearest-lane query, step by step\<close>

lemma py_index_0: "py_index xs 0 = (case xs of [] \<Rightarrow> Inl IndexError | x # _ \<Rightarrow> Inr x)"
  by (cases xs) (simp_all add: py_index_def)

lemma py_index_nat: "py_index xs (int i) = (if i < length xs then Inr (xs ! i) else Inl IndexError)"
  by (simp add: py_index_def)

text \<open>
  The midpoint that the sort puts first has the least computed distance; the distance of
  the lane is the vector norm computed for that midpoint.
\<close>

lemma closest_midpoint_distance_first:
  assumes ok: "argsort_ok (np_argsort api)"
  shows "closest_midpoint_distance api position lane_id =
     (case get_lane_as_interpolation api lane_id 1 INTER_METER of
        Inl e \<Rightarrow> Inl e
      | Inr midpoints \<Rightarrow>
          if midpoints = [] then Inl IndexError
          else Inr (np_linalg_norm_vector api
                 (point_diff
                    (midpoints ! hd (np_argsort api (midpoints_distance position midpoints)))
                    position)))"
proof (cases "get_lane_as_interpolation api lane_id 1 INTER_METER")
  case (Inl e)
  then show ?thesis by (simp add: closest_midpoint_distance_def get_closest_lane_midpoints_def)
next
  case (Inr ms)
  let ?ds = "midpoints_distance position ms"
  let ?p = "np_argsort api ?ds"
  have len: "length ms = length ?ds" by (simp add: midpoints_distance_def)
  have take: "get_closest_lane_midpoints api position lane_id = Inr (map (\<lambda>i. ms ! i) ?p)"
    using argsort_ok_take [OF ok len]
    by (simp add: get_closest_lane_midpoints_def Inr)
  show ?thesis
  proof (cases "ms = []")
    case True
    with argsort_ok_length [OF ok, of ?ds] have "?p = []" by (simp add: midpoints_distance_def)
    with True take Inr show ?thesis
      by (simp add: closest_midpoint_distance_def py_index_0)
  next
    case False
    then have ne: "?ds \<noteq> []" by (simp add: midpoints_distance_def)
    from argsort_ok_hd(1) [OF ok ne] obtain i rest where pi: "?p = i # rest"
      by (cases ?p) auto
    with take Inr False show ?thesis
      by (simp add: closest_midpoint_distance_def py_index_0)
  qed
qed

lemma first_midpoint_is_least:
  assumes ok: "argsort_ok (np_argsort api)" and ne: "midpoints \<noteq> []"
  shows "hd (np_argsort api (midpoints_distance position midpoints)) < length midpoints"
    and "\<forall>m \<in> set midpoints.
           np_linalg_norm
             (point_diff
                (midpoints ! hd (np_argsort api (midpoints_distance position midpoints)))
                position)
           \<le> np_linalg_norm (point_diff m position)"
proof -
  let ?ds = "midpoints_distance position midpoints"
  let ?i = "hd (np_argsort api ?ds)"
  from ne have dne: "?ds \<noteq> []" by (simp add: midpoints_distance_def)
  from argsort_ok_hd(2) [OF ok dne] show i: "?i < length midpoints"
    by (simp add: midpoints_distance_def)
  then have at: "?ds ! ?i = np_linalg_norm (point_diff (midpoints ! ?i) position)"
    by (simp add: midpoints_distance_def)
  have "np_linalg_norm (point_diff (midpoints ! ?i) position)
          \<le> np_linalg_norm (point_diff m position)" if "m \<in> set midpoints" for m
  proof -
    from that have "np_linalg_norm (point_diff m position) \<in> set ?ds"
      by (simp add: midpoints_distance_def)
    with argsort_ok_hd(3) [OF ok dne] at show ?thesis by metis
  qed
  then show "\<forall>m \<in> set midpoints.
           np_linalg_norm (point_diff (midpoints ! ?i) position)
           \<le> np_linalg_norm (point_diff m position)"
    by blast
qed

lemma lanes_distances_loop_all2:
  "lanes_distances_loop api position lanes_ids idxs = Inr ds \<Longrightarrow>
   list_all2 (\<lambda>i d. i < length lanes_ids \<and>
                closest_midpoint_distance api position (lanes_ids ! i) = Inr d) idxs ds"
proof (induction idxs arbitrary: ds)
  case Nil
  then show ?case by simp
next
  case (Cons i idxs)
  then show ?case
    by (auto simp: py_index_nat split: sum.splits if_splits)
qed

lemma lanes_distances_loop_returns:
  assumes "\<And>i. i \<in> set idxs \<Longrightarrow>
             i < length lanes_ids \<and> (\<exists>d. closest_midpoint_distance api position (lanes_ids ! i) = Inr d)"
  shows "\<exists>ds. lanes_distances_loop api position lanes_ids idxs = Inr ds"
  using assms
proof (induction idxs)
  case Nil
  show ?case by simp
next
  case (Cons i idxs)
  from Cons.prems [of i] obtain d where
    "i < length lanes_ids" "closest_midpoint_distance api position (lanes_ids ! i) = Inr d" by auto
  moreover from Cons.IH Cons.prems obtain ds where
    "lanes_distances_loop api position lanes_ids idxs = Inr ds" by auto
  ultimately show ?case by (simp add: py_index_nat)
qed

text \<open>What a returned sequence is, given the contract of the sort.\<close>

lemma get_closest_lanes_ids_Some:
  assumes ok: "argsort_ok (np_argsort api)"
      and res: "get_closest_lanes_ids api position = Inr (Some closest_lanes_ids)"
  shows "\<exists>ds. lanes_distances_loop api position (bounds_info_lanes_ids api)
                 (coarse_lanes_indices api position) = Inr ds \<and>
              coarse_lanes_indices api position \<noteq> [] \<and>
              closest_lanes_ids =
                map (\<lambda>j. bounds_info_lanes_ids api ! (coarse_lanes_indices api position ! j))
                  (np_argsort api ds)"
proof -
  let ?idx = "coarse_lanes_indices api position"
  let ?ids = "bounds_info_lanes_ids api"
  from res have ne: "?idx \<noteq> []"
    by (auto simp: get_closest_lanes_ids_def Let_def split: if_splits)
  with res obtain ds where ds: "lanes_distances_loop api position ?ids ?idx = Inr ds"
    by (auto simp: get_closest_lanes_ids_def Let_def split: sum.splits)
  from lanes_distances_loop_all2 [OF ds] have len: "length ?idx = length ds"
    by (rule list_all2_lengthD)
  from argsort_ok_take [OF ok len]
  have t1: "np_take ?idx (np_argsort api ds) = Inr (map (\<lambda>j. ?idx ! j) (np_argsort api ds))" .
  from res ne ds t1 have
    "np_take ?ids (map (\<lambda>j. ?idx ! j) (np_argsort api ds)) = Inr closest_lanes_ids"
    by (auto simp: get_closest_lanes_ids_def Let_def split: sum.splits)
  then have "closest_lanes_ids = map (\<lambda>i. ?ids ! i) (map (\<lambda>j. ?idx ! j) (np_argsort api ds))"
    by (auto simp: np_take_def split: if_splits)
  with ds ne show ?thesis by (auto simp: comp_def)
qed

section \<open>Rounding at the midpoints of the examples\<close>

text \<open>The coordinates are \<^verbatim>\<open>float64\<close> values.\<close>

lemma f64_0_1_float: "f64_round f64_0_1 = Finite f64_0_1"
proof (rule f64_round_grid [where k = "3602879701896397" and j = "- 55"])
  show "f64_0_1 = of_int (3602879701896397) * 2 powi (- 55)" by (simp add: f64_0_1_def)
  show "\<bar>3602879701896397 :: int\<bar> < 2 ^ 53" by simp
  show "- 1074 \<le> (- 55 :: int)" by simp
  show "\<bar>f64_0_1\<bar> < 2 powi 1024" by (simp add: f64_0_1_def)
qed



lemma f64_3_7_float: "f64_round f64_3_7 = Finite f64_3_7"
proof (rule f64_round_grid [where k = "4165829655317709" and j = "- 50"])
  show "f64_3_7 = of_int (4165829655317709) * 2 powi (- 50)" by (simp add: f64_3_7_def)
  show "\<bar>4165829655317709 :: int\<bar> < 2 ^ 53" by simp
  show "- 1074 \<le> (- 50 :: int)" by simp
  show "\<bar>f64_3_7\<bar> < 2 powi 1024" by (simp add: f64_3_7_def)
qed

lemma f64_5_1_float: "f64_round f64_5_1 = Finite f64_5_1"
proof (rule f64_round_grid [where k = "2871044762448691" and j = "- 49"])
  show "f64_5_1 = of_int (2871044762448691) * 2 powi (- 49)" by (simp add: f64_5_1_def)
  show "\<bar>2871044762448691 :: int\<bar> < 2 ^ 53" by simp
  show "- 1074 \<le> (- 49 :: int)" by simp
  show "\<bar>f64_5_1\<bar> < 2 powi 1024" by (simp add: f64_5_1_def)
qed

lemma f64_6_3_float: "f64_round f64_6_3 = Finite f64_6_3"
proof (rule f64_round_grid [where k = "7093169413108531" and j = "- 50"])
  show "f64_6_3 = of_int (7093169413108531) * 2 powi (- 50)" by (simp add: f64_6_3_def)
  show "\<bar>7093169413108531 :: int\<bar> < 2 ^ 53" by simp
  show "- 1074 \<le> (- 50 :: int)" by simp
  show "\<bar>f64_6_3\<bar> < 2 powi 1024" by (simp add: f64_6_3_def)
qed



lemma f64_3_7_squared: "f64_round (f64_3_7 * f64_3_7) = Finite (3853392431168881 / 281474976710656)"
proof (rule f64_round_eqI [where e = "3" and m = "7706784862337762"])
  show "f64_3_7 * f64_3_7 \<noteq> 0" by (simp add: f64_3_7_def)
  show "max (ilog2 \<bar>f64_3_7 * f64_3_7\<bar>) (- 1022) = 3"
    by (rule f64_exponent_normal) (simp_all add: f64_3_7_def)
  show "(3853392431168881 / 281474976710656 :: real) = of_int (7706784862337762) * 2 powi (3 - 52)"
    by simp
  show "\<bar>f64_3_7 * f64_3_7 - 3853392431168881 / 281474976710656\<bar> < 2 powi (3 - 53)"
    by (simp add: f64_3_7_def)
  show "\<bar>3853392431168881 / 281474976710656 :: real\<bar> < 2 powi 1024" by simp
qed

lemma f64_5_1_squared: "f64_round (f64_5_1 * f64_5_1) = Finite (3660582072122081 / 140737488355328)"
proof (rule f64_round_eqI [where e = "4" and m = "7321164144244162"])
  show "f64_5_1 * f64_5_1 \<noteq> 0" by (simp add: f64_5_1_def)
  show "max (ilog2 \<bar>f64_5_1 * f64_5_1\<bar>) (- 1022) = 4"
    by (rule f64_exponent_normal) (simp_all add: f64_5_1_def)
  show "(3660582072122081 / 140737488355328 :: real) = of_int (7321164144244162) * 2 powi (4 - 52)"
    by simp
  show "\<bar>f64_5_1 * f64_5_1 - 3660582072122081 / 140737488355328\<bar> < 2 powi (4 - 53)"
    by (simp add: f64_5_1_def)
  show "\<bar>3660582072122081 / 140737488355328 :: real\<bar> < 2 powi 1024" by simp
qed

lemma f64_0_1_squared: "f64_round (f64_0_1 * f64_0_1)
    = Finite (1441151880758559 / 144115188075855872)"
proof (rule f64_round_eqI [where e = "- 7" and m = "5764607523034236"])
  show "f64_0_1 * f64_0_1 \<noteq> 0" by (simp add: f64_0_1_def)
  show "max (ilog2 \<bar>f64_0_1 * f64_0_1\<bar>) (- 1022) = - 7"
    by (rule f64_exponent_normal) (simp_all add: f64_0_1_def)
  show "(1441151880758559 / 144115188075855872 :: real)
      = of_int (5764607523034236) * 2 powi (- 7 - 52)"
    by simp
  show "\<bar>f64_0_1 * f64_0_1 - 1441151880758559 / 144115188075855872\<bar> < 2 powi (- 7 - 53)"
    by (simp add: f64_0_1_def)
  show "\<bar>1441151880758559 / 144115188075855872 :: real\<bar> < 2 powi 1024" by simp
qed

lemma f64_6_3_squared: "f64_round (f64_6_3 * f64_6_3) = Finite (698233864102871 / 17592186044416)"
proof (rule f64_round_eqI [where e = "5" and m = "5585870912822968"])
  show "f64_6_3 * f64_6_3 \<noteq> 0" by (simp add: f64_6_3_def)
  show "max (ilog2 \<bar>f64_6_3 * f64_6_3\<bar>) (- 1022) = 5"
    by (rule f64_exponent_normal) (simp_all add: f64_6_3_def)
  show "(698233864102871 / 17592186044416 :: real) = of_int (5585870912822968) * 2 powi (5 - 52)"
    by simp
  show "\<bar>f64_6_3 * f64_6_3 - 698233864102871 / 17592186044416\<bar> < 2 powi (5 - 53)"
    by (simp add: f64_6_3_def)
  show "\<bar>698233864102871 / 17592186044416 :: real\<bar> < 2 powi 1024" by simp
qed


lemma sum_of_squares_R0: "f64_round (3853392431168881 / 281474976710656
    + 3660582072122081 / 140737488355328) = Finite (2793639143853261 / 70368744177664)"
proof (rule f64_round_tieI [where e = "5" and m = "5587278287706522"])
  show "(3853392431168881 / 281474976710656 + 3660582072122081 / 140737488355328 :: real)
      \<noteq> 0"
    by simp
  show "max (ilog2 \<bar>3853392431168881 / 281474976710656
      + 3660582072122081 / 140737488355328\<bar>) (- 1022) = 5"
    by (rule f64_exponent_normal) simp_all
  show "(2793639143853261 / 70368744177664 :: real) = of_int (5587278287706522) * 2 powi (5 - 52)"
    by simp
  show "\<bar>3853392431168881 / 281474976710656
      + 3660582072122081 / 140737488355328 - 2793639143853261 / 70368744177664\<bar>
          = (2::real) powi (5 - 53)"
    by simp
  show "even (5587278287706522 :: int)" by simp
  show "\<bar>2793639143853261 / 70368744177664 :: real\<bar> < 2 powi 1024" by simp
qed

lemma sum_of_squares_R1: "f64_round (1441151880758559 / 144115188075855872
    + 698233864102871 / 17592186044416) = Finite (5587278287706521 / 140737488355328)"
proof (rule f64_round_eqI [where e = "5" and m = "5587278287706521"])
  show "(1441151880758559 / 144115188075855872 + 698233864102871 / 17592186044416 :: real)
      \<noteq> 0"
    by simp
  show "max (ilog2 \<bar>1441151880758559 / 144115188075855872
      + 698233864102871 / 17592186044416\<bar>) (- 1022) = 5"
    by (rule f64_exponent_normal) simp_all
  show "(5587278287706521 / 140737488355328 :: real) = of_int (5587278287706521) * 2 powi (5 - 52)"
    by simp
  show "\<bar>1441151880758559 / 144115188075855872
      + 698233864102871 / 17592186044416 - 5587278287706521 / 140737488355328\<bar>
          < (2::real) powi (5 - 53)"
    by simp
  show "\<bar>5587278287706521 / 140737488355328 :: real\<bar> < 2 powi 1024" by simp
qed



lemma root_R0: "f64_round (sqrt (2793639143853261 / 70368744177664))
    = Finite (1773515732046461 / 281474976710656)"
proof (rule f64_round_sqrtI [where e = "2" and m = "7094062928185844"])
  show "- 1022 \<le> (2 :: int)" by simp
  show "((2::real) powi (2))\<^sup>2 \<le> 2793639143853261 / 70368744177664" by simp
  show "2793639143853261 / 70368744177664 < ((2::real) powi (2 + 1))\<^sup>2" by simp
  show "(1773515732046461 / 281474976710656 :: real) = of_int (7094062928185844) * 2 powi (2 - 52)"
    by simp
  show "(1773515732046461 / 281474976710656 - (2::real) powi (2 - 53))\<^sup>2 < 2793639143853261 / 70368744177664"
    by (simp add: power2_eq_square)
  show "2793639143853261 / 70368744177664 < (1773515732046461 / 281474976710656
      + (2::real) powi (2 - 53))\<^sup>2"
    by (simp add: power2_eq_square)
  show "(0::real) \<le> 1773515732046461 / 281474976710656 + 2 powi (2 - 53)" by simp
  show "\<bar>1773515732046461 / 281474976710656 :: real\<bar> < 2 powi 1024" by simp
qed

lemma root_R1: "f64_round (sqrt (5587278287706521 / 140737488355328))
    = Finite (7094062928185843 / 1125899906842624)"
proof (rule f64_round_sqrtI [where e = "2" and m = "7094062928185843"])
  show "- 1022 \<le> (2 :: int)" by simp
  show "((2::real) powi (2))\<^sup>2 \<le> 5587278287706521 / 140737488355328" by simp
  show "5587278287706521 / 140737488355328 < ((2::real) powi (2 + 1))\<^sup>2" by simp
  show "(7094062928185843 / 1125899906842624 :: real) = of_int (7094062928185843) * 2 powi (2 - 52)"
    by simp
  show "(7094062928185843 / 1125899906842624 - (2::real) powi (2 - 53))\<^sup>2 < 5587278287706521 / 140737488355328"
    by (simp add: power2_eq_square)
  show "5587278287706521 / 140737488355328 < (7094062928185843 / 1125899906842624
      + (2::real) powi (2 - 53))\<^sup>2"
    by (simp add: power2_eq_square)
  show "(0::real) \<le> 7094062928185843 / 1125899906842624 + 2 powi (2 - 53)" by simp
  show "\<bar>7094062928185843 / 1125899906842624 :: real\<bar> < 2 powi 1024" by simp
qed




text \<open>
  The distances computed row by row for the two midpoints of lane R from the origin:
  6.300793600809346 for the first and 6.300793600809345 for the second.
\<close>

lemma row_norm_R0:
  "np_linalg_norm (point_diff (f64_3_7, f64_5_1) (0, 0))
      = Finite (1773515732046461 / 281474976710656)"
proof -
  have d: "point_diff (f64_3_7, f64_5_1) (0, 0) = (Finite f64_3_7, Finite f64_5_1)"
    by (simp add: point_diff_def f64_sub_def f64_3_7_float f64_5_1_float)
  have "np_linalg_norm (Finite f64_3_7, Finite f64_5_1) =
          f64_sqrt (f64_add (f64_round (f64_3_7 * f64_3_7)) (f64_round (f64_5_1 * f64_5_1)))"
    by (simp only: np_linalg_norm_def fst_conv snd_conv f64_mul.simps)
  also have "\<dots> = f64_sqrt (f64_round (3853392431168881 / 281474976710656
      + 3660582072122081 / 140737488355328))"
    by (simp only: f64_3_7_squared f64_5_1_squared f64_add.simps)
  also have "\<dots> = f64_sqrt (Finite (2793639143853261 / 70368744177664))"
    by (simp only: sum_of_squares_R0)
  also have "\<dots> = f64_round (sqrt (2793639143853261 / 70368744177664))"
    by simp
  also have "\<dots> = Finite (1773515732046461 / 281474976710656)"
    by (rule root_R0)
  finally show ?thesis by (simp only: d)
qed

lemma row_norm_R1:
  "np_linalg_norm (point_diff (f64_0_1, f64_6_3) (0, 0))
      = Finite (7094062928185843 / 1125899906842624)"
proof -
  have d: "point_diff (f64_0_1, f64_6_3) (0, 0) = (Finite f64_0_1, Finite f64_6_3)"
    by (simp add: point_diff_def f64_sub_def f64_0_1_float f64_6_3_float)
  have "np_linalg_norm (Finite f64_0_1, Finite f64_6_3) =
          f64_sqrt (f64_add (f64_round (f64_0_1 * f64_0_1)) (f64_round (f64_6_3 * f64_6_3)))"
    by (simp only: np_linalg_norm_def fst_conv snd_conv f64_mul.simps)
  also have "\<dots> = f64_sqrt (f64_round (1441151880758559 / 144115188075855872
      + 698233864102871 / 17592186044416))"
    by (simp only: f64_0_1_squared f64_6_3_squared f64_add.simps)
  also have "\<dots> = f64_sqrt (Finite (5587278287706521 / 140737488355328))"
    by (simp only: sum_of_squares_R1)
  also have "\<dots> = f64_round (sqrt (5587278287706521 / 140737488355328))"
    by simp
  also have "\<dots> = Finite (7094062928185843 / 1125899906842624)"
    by (rule root_R1)
  finally show ?thesis by (simp only: d)
qed

section \<open>Nearest lanes are sorted by the computed distance (C2)\<close>




section \<open>Nearest lanes are the coarse candidates (C8)\<close>

text \<open>
  Claim C8. Whenever \<^verbatim>\<open>np.argsort\<close> meets its contract, a returned sequence is a
  permutation of the identifiers of the coarse candidates: every candidate index is in
  range, and no lane is dropped or added after the coarse filter, whatever its distance.
\<close>

theorem closest_lanes_permutation:
  assumes ok: "argsort_ok (np_argsort api)"
      and res: "get_closest_lanes_ids api position = Inr (Some closest_lanes_ids)"
  shows "list_all (\<lambda>i. i < length (bounds_info_lanes_ids api)) (coarse_lanes_indices api position) \<and>
         mset closest_lanes_ids =
           mset (map (\<lambda>i. bounds_info_lanes_ids api ! i) (coarse_lanes_indices api position)) \<and>
         length closest_lanes_ids = length (coarse_lanes_indices api position)"
proof -
  let ?idx = "coarse_lanes_indices api position"
  let ?ids = "bounds_info_lanes_ids api"
  from get_closest_lanes_ids_Some [OF ok res] obtain ds where
    ds: "lanes_distances_loop api position ?ids ?idx = Inr ds" and
    cl: "closest_lanes_ids = map (\<lambda>j. ?ids ! (?idx ! j)) (np_argsort api ds)" by blast
  from lanes_distances_loop_all2 [OF ds]
  have all2: "list_all2 (\<lambda>i d. i < length ?ids \<and>
                closest_midpoint_distance api position (?ids ! i) = Inr d) ?idx ds" .
  then have len: "length ?idx = length ds" by (rule list_all2_lengthD)
  from all2 have inr: "list_all (\<lambda>i. i < length ?ids) ?idx"
    by (auto simp: list_all_iff list_all2_conv_all_nth in_set_conv_nth)
  have len': "length (map (\<lambda>i. ?ids ! i) ?idx) = length ds" by (simp add: len)
  have "closest_lanes_ids = map (\<lambda>j. map (\<lambda>i. ?ids ! i) ?idx ! j) (np_argsort api ds)"
    unfolding cl using argsort_ok_set [OF ok, of ds] len by (intro map_cong) auto
  with argsort_ok_mset [OF ok len']
  have ms: "mset closest_lanes_ids = mset (map (\<lambda>i. ?ids ! i) ?idx)" by simp
  then have "length closest_lanes_ids = length ?idx"
    by (metis size_mset length_map)
  with inr ms show ?thesis by simp
qed

text \<open>
  In the small map the retrieval radius is 1 and lane A, whose nearest midpoint is at
  distance 2 from the position, is returned all the same.
\<close>

theorem closest_lanes_permutation_witness:
  "argsort_ok (np_argsort demo_api) \<and>
   get_closest_lanes_ids demo_api (7, 1) = Inr (Some [''B'', ''A'']) \<and>
   max_retrieval_distance_m demo_api = 1 \<and>
   closest_midpoint_distance demo_api (7, 1) ''A'' = Inr (Finite 2) \<and>
   map (\<lambda>i. bounds_info_lanes_ids demo_api ! i) (coarse_lanes_indices demo_api (7, 1))
     = [''A'', ''B''] \<and>
   mset [''B'', ''A''] =
     mset (map (\<lambda>i. bounds_info_lanes_ids demo_api ! i) (coarse_lanes_indices demo_api (7, 1)))"
proof -
  have res: "get_closest_lanes_ids demo_api (7, 1) = Inr (Some [''B'', ''A''])"
    by (simp add: nearest_eval float_eval)
  have r: "max_retrieval_distance_m demo_api = 1"
    by (simp add: demo_api_def)
  have d: "closest_midpoint_distance demo_api (7, 1) ''A'' = Inr (Finite 2)"
    by (simp add: nearest_eval float_eval)
  have c: "map (\<lambda>i. bounds_info_lanes_ids demo_api ! i) (coarse_lanes_indices demo_api (7, 1))
     = [''A'', ''B'']"
    by (simp add: nearest_eval float_eval)
  from closest_lanes_permutation [OF demo_argsort_ok res]
  have "mset [''B'', ''A''] =
     mset (map (\<lambda>i. bounds_info_lanes_ids demo_api ! i) (coarse_lanes_indices demo_api (7, 1)))"
    by blast
  with demo_argsort_ok res r d c show ?thesis by blast
qed

section \<open>Progress of the midpoint computed nearest (C7)\<close>

text \<open>
  Claim C7, as the code has it. Whenever \<^verbatim>\<open>np.argsort\<close> meets its contract and the
  interpolation of the lane yields at least one midpoint (and no more than \<open>2\<^sup>5\<^sup>3\<close>, so
  that every index is a \<^verbatim>\<open>float64\<close> value), \<^verbatim>\<open>get_lane_progress\<close> returns the value
  that \<^verbatim>\<open>np.linspace(0, 1, n)\<close> gives to a midpoint whose computed distance to the
  position no other midpoint of the lane beats. The value is finite and lies between 0
  and 1, wherever the position is. The computed distance is the \<^verbatim>\<open>float64\<close> row norm,
  not the exact Euclidean distance.
\<close>

theorem lane_progress_of_nearest_midpoint:
  assumes ok: "argsort_ok (np_argsort api)"
      and mid: "get_lane_as_interpolation api lane_id (real_of_int (max_points_per_lane api))
                  INTER_ENSURE_LEN = Inr midpoints"
      and ne: "midpoints \<noteq> []"
      and bound: "length midpoints \<le> 2 ^ 53"
  shows "\<exists>i v. i < length midpoints \<and>
           get_lane_progress api position lane_id = Inr (Finite v) \<and>
           np_linspace_0_1 (length midpoints) ! i = Finite v \<and>
           (\<forall>m \<in> set midpoints.
              np_linalg_norm (point_diff (midpoints ! i) position)
                \<le> np_linalg_norm (point_diff m position)) \<and>
           0 \<le> v \<and> v \<le> 1"
proof -
  let ?ds = "midpoints_distance position midpoints"
  let ?p = "np_argsort api ?ds"
  let ?pr = "np_linspace_0_1 (length midpoints)"
  let ?i = "hd ?p"
  have len: "length ?pr = length ?ds" by (simp add: midpoints_distance_def)
  from ne have dne: "?ds \<noteq> []" by (simp add: midpoints_distance_def)
  from argsort_ok_hd(1) [OF ok dne] obtain rest where pi: "?p = ?i # rest"
    by (cases ?p) auto
  from first_midpoint_is_least [OF ok ne, of position]
  have i: "?i < length midpoints"
    and least: "\<forall>m \<in> set midpoints.
           np_linalg_norm (point_diff (midpoints ! ?i) position)
           \<le> np_linalg_norm (point_diff m position)"
    by blast+
  from argsort_ok_take [OF ok len]
  have "np_take ?pr ?p = Inr (map (\<lambda>j. ?pr ! j) ?p)" .
  also have "map (\<lambda>j. ?pr ! j) ?p = ?pr ! ?i # map (\<lambda>j. ?pr ! j) rest"
    by (subst pi) simp
  finally have "get_lane_progress api position lane_id = Inr (?pr ! ?i)"
    by (simp add: get_lane_progress_def mid py_index_0)
  moreover from np_linspace_0_1_unit [OF i bound] obtain v where
    "?pr ! ?i = Finite v" "0 \<le> v" "v \<le> 1" by blast
  ultimately show ?thesis using i least by (intro exI [of _ ?i] exI [of _ v]) simp
qed

text \<open>
  A position far past the end of lane A of the small map: the progress is 1, the value of
  the last midpoint.
\<close>

theorem lane_progress_of_nearest_midpoint_witness:
  "argsort_ok (np_argsort demo_api) \<and>
   get_lane_as_interpolation demo_api ''A'' (real_of_int (max_points_per_lane demo_api))
     INTER_ENSURE_LEN = Inr [(1, 1), (5, 1), (9, 1)] \<and>
   get_lane_progress demo_api (100, 1) ''A'' = Inr (Finite 1) \<and>
   (\<exists>i v. i < 3 \<and>
      get_lane_progress demo_api (100, 1) ''A'' = Inr (Finite v) \<and>
      np_linspace_0_1 3 ! i = Finite v \<and> 0 \<le> v \<and> v \<le> 1)"
proof -
  have mid: "get_lane_as_interpolation demo_api ''A'' (real_of_int (max_points_per_lane demo_api))
     INTER_ENSURE_LEN = Inr [(1, 1), (5, 1), (9, 1)]"
    by (simp add: demo_api_def demo_midpoints_def)
  have ne: "[(1, 1), (5, 1), (9, 1) :: point] \<noteq> []" by simp
  have bound: "length [(1, 1), (5, 1), (9, 1) :: point] \<le> 2 ^ 53" by simp
  have far: "get_lane_progress demo_api (100, 1) ''A'' = Inr (Finite 1)"
    by (simp add: nearest_eval float_eval np_linspace_0_1_def)
  from lane_progress_of_nearest_midpoint [OF demo_argsort_ok mid ne bound, of "(100, 1)"]
  obtain i v where "i < length [(1, 1), (5, 1), (9, 1) :: point]"
    and "get_lane_progress demo_api (100, 1) ''A'' = Inr (Finite v)"
    and "np_linspace_0_1 (length [(1, 1), (5, 1), (9, 1) :: point]) ! i = Finite v"
    and "0 \<le> v" and "v \<le> 1"
    by blast
  then have "\<exists>i v. i < 3 \<and>
      get_lane_progress demo_api (100, 1) ''A'' = Inr (Finite v) \<and>
      np_linspace_0_1 3 ! i = Finite v \<and> 0 \<le> v \<and> v \<le> 1"
    by (intro exI [of _ i] exI [of _ v]) (simp add: numeral_3_eq_3)
  with demo_argsort_ok mid far show ?thesis by (intro conjI)
qed

text \<open>
  The claim as the specification states it, with the midpoint nearest in Euclidean
  distance, fails. Lane R has the midpoints (3.7, 5.1) and (0.1, 6.3), with the progress
  values 0 and 1. From the origin the first is the nearer one, but the distance computed
  for it, 6.300793600809346, is above the distance computed for the second,
  6.300793600809345, and the progress returned is 1.
\<close>

theorem lane_progress_rounding_counterexample:
  "argsort_ok (np_argsort rounding_api) \<and>
   get_lane_as_interpolation rounding_api ''R'' (real_of_int (max_points_per_lane rounding_api))
     INTER_ENSURE_LEN = Inr [(f64_3_7, f64_5_1), (f64_0_1, f64_6_3)] \<and>
   f64_round f64_3_7 = Finite f64_3_7 \<and>
   f64_round f64_5_1 = Finite f64_5_1 \<and>
   f64_round f64_0_1 = Finite f64_0_1 \<and>
   f64_round f64_6_3 = Finite f64_6_3 \<and>
   np_linspace_0_1 2 = [Finite 0, Finite 1] \<and>
   euclidean_distance (f64_3_7, f64_5_1) (0, 0) < euclidean_distance (f64_0_1, f64_6_3) (0, 0) \<and>
   np_linalg_norm (point_diff (f64_0_1, f64_6_3) (0, 0))
     < np_linalg_norm (point_diff (f64_3_7, f64_5_1) (0, 0)) \<and>
   get_lane_progress rounding_api (0, 0) ''R'' = Inr (Finite 1)"
proof -
  have mid: "get_lane_as_interpolation rounding_api ''R''
      (real_of_int (max_points_per_lane rounding_api)) INTER_ENSURE_LEN
      = Inr [(f64_3_7, f64_5_1), (f64_0_1, f64_6_3)]"
    by (simp add: rounding_api_def rounding_midpoints_def)
  have lin: "np_linspace_0_1 2 = [Finite 0, Finite 1]"
    by (simp add: np_linspace_0_1_def f64_round_1)
  have e: "euclidean_distance (f64_3_7, f64_5_1) (0, 0)
             < euclidean_distance (f64_0_1, f64_6_3) (0, 0)"
    by (simp add: euclidean_distance_def f64_3_7_def f64_5_1_def f64_0_1_def f64_6_3_def
        power2_eq_square)
  have n: "np_linalg_norm (point_diff (f64_0_1, f64_6_3) (0, 0))
             < np_linalg_norm (point_diff (f64_3_7, f64_5_1) (0, 0))"
    by (simp add: row_norm_R0 row_norm_R1)
  have p: "get_lane_progress rounding_api (0, 0) ''R'' = Inr (Finite 1)"
    by (simp add: rounding_api_def rounding_midpoints_def nearest_eval row_norm_R0 row_norm_R1
        lin [unfolded numeral_2_eq_2])
  from rounding_argsort_ok mid f64_3_7_float f64_5_1_float f64_0_1_float f64_6_3_float lin e n p
  show ?thesis by (intro conjI)
qed

section \<open>No candidate, no result (C6)\<close>

lemma get_closest_lanes_ids_nonempty:
  assumes ok: "argsort_ok (np_argsort api)"
      and res: "get_closest_lanes_ids api position = Inr (Some closest_lanes_ids)"
  shows "coarse_lanes_indices api position \<noteq> [] \<and> closest_lanes_ids \<noteq> []"
proof -
  let ?idx = "coarse_lanes_indices api position"
  let ?ids = "bounds_info_lanes_ids api"
  from get_closest_lanes_ids_Some [OF ok res] obtain ds where
    ds: "lanes_distances_loop api position ?ids ?idx = Inr ds" and ne: "?idx \<noteq> []" and
    cl: "closest_lanes_ids = map (\<lambda>j. ?ids ! (?idx ! j)) (np_argsort api ds)" by blast
  from lanes_distances_loop_all2 [OF ds] have "length ?idx = length ds"
    by (rule list_all2_lengthD)
  with ne argsort_ok_length [OF ok, of ds] cl show ?thesis by auto
qed

lemma get_closest_lanes_ids_returns:
  assumes ok: "argsort_ok (np_argsort api)"
      and ne: "coarse_lanes_indices api position \<noteq> []"
      and h: "\<forall>lane_idx \<in> set (coarse_lanes_indices api position).
             lane_idx < length (bounds_info_lanes_ids api) \<and>
             (\<exists>midpoints.
                get_lane_as_interpolation api (bounds_info_lanes_ids api ! lane_idx) 1 INTER_METER
                  = Inr midpoints \<and> midpoints \<noteq> [])"
  shows "\<exists>closest_lanes_ids. get_closest_lanes_ids api position = Inr (Some closest_lanes_ids)"
proof -
  let ?idx = "coarse_lanes_indices api position"
  let ?ids = "bounds_info_lanes_ids api"
  have "i < length ?ids \<and> (\<exists>d. closest_midpoint_distance api position (?ids ! i) = Inr d)"
    if "i \<in> set ?idx" for i
    using h that unfolding closest_midpoint_distance_first [OF ok] by auto
  from lanes_distances_loop_returns [OF this] obtain ds where
    ds: "lanes_distances_loop api position ?ids ?idx = Inr ds" by blast
  from lanes_distances_loop_all2 [OF ds] have len: "length ?idx = length ds"
    by (rule list_all2_lengthD)
  let ?sorted = "map (\<lambda>j. ?idx ! j) (np_argsort api ds)"
  from argsort_ok_take [OF ok len]
  have t1: "np_take ?idx (np_argsort api ds) = Inr ?sorted" .
  have "set ?sorted \<subseteq> set ?idx"
    using argsort_ok_set [OF ok, of ds] len by auto
  with h have "list_all (\<lambda>i. i < length ?ids) ?sorted" by (auto simp: list_all_iff)
  then have t2: "np_take ?ids ?sorted = Inr (map (\<lambda>i. ?ids ! i) ?sorted)"
    by (simp add: np_take_def)
  from ne ds t1 t2
  have "get_closest_lanes_ids api position = Inr (Some (map (\<lambda>i. ?ids ! i) ?sorted))"
    by (simp add: get_closest_lanes_ids_def Let_def)
  then show ?thesis by blast
qed

text \<open>
  Claim C6. \<^verbatim>\<open>get_closest_lanes_ids\<close> returns \<^verbatim>\<open>None\<close> exactly when there is no
  coarse candidate. Whenever \<^verbatim>\<open>np.argsort\<close> meets its contract, a returned sequence
  is not empty and comes from a candidate list that is not empty; and when there are
  candidates, each in range and each with at least one midpoint, the call does return a
  sequence, which is not empty.
\<close>

theorem closest_lanes_none_iff_no_candidates:
  "(get_closest_lanes_ids api position = Inr None \<longleftrightarrow>
      coarse_lanes_indices api position = []) \<and>
   (argsort_ok (np_argsort api) \<longrightarrow>
      (\<forall>closest_lanes_ids.
         get_closest_lanes_ids api position = Inr (Some closest_lanes_ids) \<longrightarrow>
         coarse_lanes_indices api position \<noteq> [] \<and> closest_lanes_ids \<noteq> []) \<and>
      (coarse_lanes_indices api position \<noteq> [] \<and>
       (\<forall>lane_idx \<in> set (coarse_lanes_indices api position).
          lane_idx < length (bounds_info_lanes_ids api) \<and>
          (\<exists>midpoints.
             get_lane_as_interpolation api (bounds_info_lanes_ids api ! lane_idx) 1 INTER_METER
               = Inr midpoints \<and> midpoints \<noteq> [])) \<longrightarrow>
       (\<exists>closest_lanes_ids.
          get_closest_lanes_ids api position = Inr (Some closest_lanes_ids) \<and>
          closest_lanes_ids \<noteq> [])))"
proof -
  have none: "get_closest_lanes_ids api position = Inr None \<longleftrightarrow>
      coarse_lanes_indices api position = []"
    by (auto simp: get_closest_lanes_ids_def Let_def split: sum.splits)
  have some: "coarse_lanes_indices api position \<noteq> [] \<and> ids \<noteq> []"
    if "argsort_ok (np_argsort api)" "get_closest_lanes_ids api position = Inr (Some ids)" for ids
    using that by (rule get_closest_lanes_ids_nonempty)
  have returns: "\<exists>ids. get_closest_lanes_ids api position = Inr (Some ids) \<and> ids \<noteq> []"
    if ok: "argsort_ok (np_argsort api)"
      and ne: "coarse_lanes_indices api position \<noteq> []"
      and h: "\<forall>lane_idx \<in> set (coarse_lanes_indices api position).
          lane_idx < length (bounds_info_lanes_ids api) \<and>
          (\<exists>midpoints.
             get_lane_as_interpolation api (bounds_info_lanes_ids api ! lane_idx) 1 INTER_METER
               = Inr midpoints \<and> midpoints \<noteq> [])"
  proof -
    from get_closest_lanes_ids_returns [OF ok ne h] obtain ids where
      r: "get_closest_lanes_ids api position = Inr (Some ids)" by blast
    with some [OF ok r] show ?thesis by blast
  qed
  from none some returns show ?thesis by blast
qed

theorem closest_lanes_none_iff_no_candidates_witness:
  "argsort_ok (np_argsort demo_api) \<and>
   coarse_lanes_indices demo_api (7, 1) = [0, 1] \<and>
   (\<exists>closest_lanes_ids.
      get_closest_lanes_ids demo_api (7, 1) = Inr (Some closest_lanes_ids) \<and>
      closest_lanes_ids \<noteq> []) \<and>
   coarse_lanes_indices demo_api (50, 1) = [] \<and>
   get_closest_lanes_ids demo_api (50, 1) = Inr None"
proof -
  have c1: "coarse_lanes_indices demo_api (7, 1) = [0, 1]"
    by (simp add: nearest_eval float_eval)
  have c2: "coarse_lanes_indices demo_api (50, 1) = []"
    by (simp add: nearest_eval float_eval)
  have hyp: "\<forall>lane_idx \<in> set (coarse_lanes_indices demo_api (7, 1)).
          lane_idx < length (bounds_info_lanes_ids demo_api) \<and>
          (\<exists>midpoints.
             get_lane_as_interpolation demo_api (bounds_info_lanes_ids demo_api ! lane_idx) 1
               INTER_METER = Inr midpoints \<and> midpoints \<noteq> [])"
    unfolding c1 by (simp add: demo_api_def demo_midpoints_def)
  from closest_lanes_none_iff_no_candidates [of demo_api "(7, 1)"] demo_argsort_ok c1 hyp
  have some: "\<exists>closest_lanes_ids.
      get_closest_lanes_ids demo_api (7, 1) = Inr (Some closest_lanes_ids) \<and>
      closest_lanes_ids \<noteq> []"
    by simp
  from closest_lanes_none_iff_no_candidates [of demo_api "(50, 1)"] c2
  have none: "get_closest_lanes_ids demo_api (50, 1) = Inr None"
    by simp
  from demo_argsort_ok c1 some c2 none show ?thesis by blast
qed

end
